theory Spec2Isabelle
  imports Complex_Main "HOL-Library.Sublist"
begin

section \<open>Geometry: points, rectangles, joint groups\<close>

text \<open>
  \<^verbatim>\<open>cv::Point\<close> holds two \<^verbatim>\<open>int\<close> pixel coordinates. Every coordinate handled below is
  a position inside a page image (a contour point found by the image library, shifted by a
  bounding-rectangle corner of the same image, or the edge of a recognised word), so sums
  and differences of two of them stay far inside the 32-bit range; they are modelled as
  mathematical integers.
\<close>

datatype Point = Point (pt_x: int) (pt_y: int)

datatype Rect = Rect (x_of: int) (y_of: int) (width_of: int) (height_of: int)

text \<open>
  \<^verbatim>\<open>typedef std::vector<std::vector<std::vector<cv::Point>>> Joint\<close>: a list of tables,
  each a list of joint groups (contours), each a list of points.
\<close>

type_synonym Table = "Point list list"
type_synonym Joint = "Table list"

text \<open>
  Modelled from the spec: \<^verbatim>\<open>cv::boundingRect\<close> of a point vector is a primitive of the image
  library, not of this repository. The spec calls it the axis-aligned bounding rectangle of
  the region; for integer points the library returns the rectangle with corner
  \<open>(xmin, ymin)\<close>, width \<open>xmax - xmin + 1\<close> and height \<open>ymax - ymin + 1\<close>, and the empty
  rectangle for no points.
\<close>

definition boundingRect :: "Point list \<Rightarrow> Rect" where
  "boundingRect pts =
     (case pts of
        [] \<Rightarrow> Rect 0 0 0 0
      | p # ps \<Rightarrow>
          (let xmin = fold min (map pt_x ps) (pt_x p);
               xmax = fold max (map pt_x ps) (pt_x p);
               ymin = fold min (map pt_y ps) (pt_y p);
               ymax = fold max (map pt_y ps) (pt_y p)
           in Rect xmin ymin (xmax - xmin + 1) (ymax - ymin + 1)))"

text \<open>
  Modelled from the spec: \<^verbatim>\<open>cv::Rect::contains\<close>, also a library primitive. The rectangle is
  half open: its left and top edge belong to it, \<open>x + width\<close> and \<open>y + height\<close> do not.
  Together with the \<open>+ 1\<close> of \<open>boundingRect\<close> every extreme point of the region is inside,
  which is the inclusive containment of the spec.
\<close>

definition contains :: "Rect \<Rightarrow> Point \<Rightarrow> bool" where
  "contains r pt \<longleftrightarrow>
     x_of r \<le> pt_x pt \<and> pt_x pt < x_of r + width_of r \<and>
     y_of r \<le> pt_y pt \<and> pt_y pt < y_of r + height_of r"

text \<open>
  \<^verbatim>\<open>TessBaseAPI::IsPointInsideTable\<close>: the groups of the table are flattened into one
  vector (\<^verbatim>\<open>new_table.insert(new_table.end(), ...)\<close>), whose bounding rectangle is tested.
\<close>

definition IsPointInsideTable :: "Point \<Rightarrow> Table \<Rightarrow> bool" where
  "IsPointInsideTable point table =
     (let new_table = concat table;
          boundRect = boundingRect new_table
      in contains boundRect point)"

text \<open>
  The membership loop of \<^verbatim>\<open>GetAbbyyText\<close>:
  \<^verbatim>\<open>for (n = 0; n < tables_joints.size(); n++) if (IsPointInsideTable(...)) { cur_table_idx = n; break; }\<close>
  followed by \<^verbatim>\<open>if (!in_table) cur_table_idx = -1\<close>. The second argument is the part of the
  vector still to visit, the third the index \<open>n\<close> of its head.
\<close>

fun table_loop :: "Point \<Rightarrow> Joint \<Rightarrow> nat \<Rightarrow> int" where
  "table_loop pt [] n = - 1"
| "table_loop pt (t # ts) n =
     (if IsPointInsideTable pt t then int n else table_loop pt ts (Suc n))"

definition find_table_idx :: "Point \<Rightarrow> Joint \<Rightarrow> int" where
  "find_table_idx pt tables_joints = table_loop pt tables_joints 0"

section \<open>Grid coordinates of a table\<close>

text \<open>
  The innermost loop over the coordinates accumulated so far,
  \<^verbatim>\<open>for (k = 0; k < x.size(); k++) if (abs(x[k] - v) < 3) { stop = true; break; }\<close>.
  It returns the value of \<open>stop\<close> afterwards; the flag it starts from is an argument because
  the two axes declare it in different scopes.
\<close>

fun k_loop :: "int list \<Rightarrow> int \<Rightarrow> bool \<Rightarrow> bool" where
  "k_loop [] v stop = stop"
| "k_loop (c # cs) v stop = (if \<bar>c - v\<bar> < 3 then True else k_loop cs v stop)"

text \<open>
  The loop over the points of one group, x axis: \<open>stop\<close> is declared inside the loop body,
  so each point starts from \<open>false\<close>; \<^verbatim>\<open>if (stop) break;\<close> leaves the group.
\<close>

fun l_loop_x :: "Point list \<Rightarrow> int list \<Rightarrow> int list" where
  "l_loop_x [] xs = xs"
| "l_loop_x (p # ps) xs =
     (let stop = k_loop xs (pt_x p) False
      in if stop then xs else l_loop_x ps (xs @ [pt_x p]))"

text \<open>
  The same loop for the y axis: here \<open>stop\<close> is declared once per group, before the loop
  over the points, and carried from point to point.
\<close>

fun l_loop_y :: "Point list \<Rightarrow> bool \<Rightarrow> int list \<Rightarrow> int list" where
  "l_loop_y [] stop ys = ys"
| "l_loop_y (p # ps) stop ys =
     (let stop' = k_loop ys (pt_y p) stop
      in if stop' then ys else l_loop_y ps stop' (ys @ [pt_y p]))"

text \<open>
  The loops over the groups, \<^verbatim>\<open>for (j = int(size) - 1; j > -1; j--)\<close>: the second argument
  is \<open>j + 1\<close>, the number of groups still to visit.
\<close>

fun j_loop_x :: "Table \<Rightarrow> nat \<Rightarrow> int list \<Rightarrow> int list" where
  "j_loop_x table 0 xs = xs"
| "j_loop_x table (Suc j) xs = j_loop_x table j (l_loop_x (table ! j) xs)"

fun j_loop_y :: "Table \<Rightarrow> nat \<Rightarrow> int list \<Rightarrow> int list" where
  "j_loop_y table 0 ys = ys"
| "j_loop_y table (Suc j) ys = j_loop_y table j (l_loop_y (table ! j) False ys)"

text \<open>
  One table's boundaries: accumulation, then \<^verbatim>\<open>std::sort\<close> (ascending; on integers its
  result is the one sorted arrangement of the elements).
\<close>

definition table_x_coords :: "Table \<Rightarrow> int list" where
  "table_x_coords table = sort (j_loop_x table (length table) [])"

definition table_y_coords :: "Table \<Rightarrow> int list" where
  "table_y_coords table = sort (j_loop_y table (length table) [])"

text \<open>
  The loop over the tables pushes one sorted vector per table onto \<open>x_coords\<close> and
  \<open>y_coords\<close>.
\<close>

definition x_coords :: "Joint \<Rightarrow> int list list" where
  "x_coords tables_joints = map table_x_coords tables_joints"

definition y_coords :: "Joint \<Rightarrow> int list list" where
  "y_coords tables_joints = map table_y_coords tables_joints"

text \<open>
  The reference algorithm of the spec, written from its words for one axis: a coordinate
  is within tolerance when it differs by less than 3 from one already accumulated; a group
  contributes its coordinates in order up to the first one within tolerance; the groups
  are taken in reverse discovery order and the result is sorted ascending.
\<close>

definition within_tolerance :: "int list \<Rightarrow> int \<Rightarrow> bool" where
  "within_tolerance acc v \<longleftrightarrow> (\<exists>c \<in> set acc. \<bar>c - v\<bar> < 3)"

fun accumulate_group :: "int list \<Rightarrow> int list \<Rightarrow> int list" where
  "accumulate_group acc [] = acc"
| "accumulate_group acc (v # vs) =
     (if within_tolerance acc v then acc else accumulate_group (acc @ [v]) vs)"

definition spec_axis :: "int list list \<Rightarrow> int list" where
  "spec_axis groups = sort (foldl accumulate_group [] (rev groups))"

text \<open>
  The invariant of the accumulation used below: the coordinates are distinct and any two
  of them are at least 3 apart.
\<close>

definition apart :: "int list \<Rightarrow> bool" where
  "apart cs \<longleftrightarrow> distinct cs \<and> (\<forall>a \<in> set cs. \<forall>b \<in> set cs. a \<noteq> b \<longrightarrow> 3 \<le> \<bar>a - b\<bar>)"

section \<open>Cell lookup inside a table\<close>

text \<open>
  The row loop of \<^verbatim>\<open>GetAbbyyText\<close> runs over the indices \<open>1 \<le> i < size\<close> of the table's
  sorted y boundaries and stops at the first boundary strictly above the point:
  \<^verbatim>\<open>int cur_row = 0; for (i = 1; i < y_coords[t].size(); i++) if (y < y_coords[t][i]) { cur_row = i; ...; break; }\<close>.
  \<open>first_below v bs i\<close> is that search on the boundaries \<open>bs\<close> still to visit, \<open>i\<close> being the
  index of the head of \<open>bs\<close>; the result 0 is the initial value of \<open>cur_row\<close>, left untouched
  when no boundary is above the point. The column loop is the same search on the x
  boundaries.
\<close>

fun first_below :: "int \<Rightarrow> int list \<Rightarrow> nat \<Rightarrow> nat" where
  "first_below v [] i = 0"
| "first_below v (b # bs) i = (if v < b then i else first_below v bs (Suc i))"

definition cur_index :: "int \<Rightarrow> int list \<Rightarrow> nat" where
  "cur_index v coords = first_below v (drop 1 coords) 1"

text \<open>
  The index in the words of the spec: the smallest index \<open>i \<ge> 1\<close> into the boundaries with
  \<open>v < coords ! i\<close>, and 0, which is no index of a row or column, when there is none.
\<close>

definition boundary_index :: "int \<Rightarrow> int list \<Rightarrow> nat" where
  "boundary_index v coords =
     (if \<exists>i. 1 \<le> i \<and> i < length coords \<and> v < coords ! i
      then LEAST i. 1 \<le> i \<and> i < length coords \<and> v < coords ! i
      else 0)"

section \<open>Table detection: the candidate loop of ExtractTableJoints\<close>

text \<open>
  A \<^verbatim>\<open>cv::Mat\<close> is either the empty matrix, which \<^verbatim>\<open>cv::imread\<close> returns for a file it cannot
  load (its \<^verbatim>\<open>data\<close> pointer is null), or the pixels of a file; the pixels themselves are
  never looked at outside the image library, so the image is named by its file.
\<close>

datatype Mat = Empty_Mat | Image string

text \<open>
  Everything \<^verbatim>\<open>ExtractTableJoints\<close> does with the matrix is a call of the image library.
  These calls are parameters of the model:
  \<^item> \<open>imread f\<close>: \<^verbatim>\<open>cv::imread(filename)\<close>;
  \<^item> \<open>line_contours src\<close>: the chain from \<^verbatim>\<open>cv::cvtColor\<close> to
    \<^verbatim>\<open>cv::findContours(mask, contours, ...)\<close> (grey conversion, adaptive threshold, erosion
    and dilation with the two structuring elements, union of the line masks), giving the
    external contours of the combined line mask in discovery order, or \<open>None\<close> when one of
    the calls raises the library's exception;
  \<^item> \<open>contourArea c\<close>: \<^verbatim>\<open>cv::contourArea\<close>, a \<^verbatim>\<open>double\<close>, only ever compared with 50;
  \<^item> \<open>approxPolyDP c\<close>: the polygon \<^verbatim>\<open>cv::approxPolyDP(contours[i], contours_poly[i], 3, true)\<close>;
  \<^item> \<open>roi_contours src r\<close>: the contours \<^verbatim>\<open>cv::findContours\<close> reports on the intersection mask
    of \<open>src\<close> cropped to the rectangle \<open>r\<close>, in coordinates relative to the crop.
  The two remaining fields stand for functions of \<^verbatim>\<open>baseapi.cpp\<close> that \<^verbatim>\<open>GetAbbyyText\<close> calls:
  \<open>HOcrEscape\<close>, and \<open>SetInputName name cur\<close>, the value of \<^verbatim>\<open>input_file_\<close> after
  \<^verbatim>\<open>SetInputName(name)\<close> when it was \<open>cur\<close> before.
\<close>

record Ext =
  imread :: "string \<Rightarrow> Mat"
  line_contours :: "Mat \<Rightarrow> Point list list option"
  contourArea :: "Point list \<Rightarrow> real"
  approxPolyDP :: "Point list \<Rightarrow> Point list"
  roi_contours :: "Mat \<Rightarrow> Rect \<Rightarrow> Point list list"
  HOcrEscape :: "string \<Rightarrow> string"
  SetInputName :: "string option \<Rightarrow> string option \<Rightarrow> string option"

text \<open>
  \<^verbatim>\<open>joints_contours[j][k].x = joints_contours[j][k].x + offset.x\<close>, and the same for y, on
  every point of every joint contour.
\<close>

definition translate :: "Point \<Rightarrow> Point list list \<Rightarrow> Point list list" where
  "translate offset joints_contours =
     map (map (\<lambda>p. Point (pt_x p + pt_x offset) (pt_y p + pt_y offset))) joints_contours"

text \<open>
  The loop over the contours. \<^verbatim>\<open>if (area < 50) continue;\<close>, then the bounding rectangle of
  the approximated polygon, the crop of the joints mask (whose offset in the page,
  \<^verbatim>\<open>roi.locateROI\<close>, is the rectangle's corner), \<^verbatim>\<open>if (joints_contours.size() <= 4) continue;\<close>,
  the translation and \<^verbatim>\<open>tables_joints.push_back(joints_contours)\<close>.
\<close>

fun contour_loop :: "Ext \<Rightarrow> Mat \<Rightarrow> Point list list \<Rightarrow> Joint \<Rightarrow> Joint" where
  "contour_loop cv src [] tables_joints = tables_joints"
| "contour_loop cv src (c # cs) tables_joints =
     (let area = contourArea cv c in
      if area < 50 then contour_loop cv src cs tables_joints
      else
        let boundRect = boundingRect (approxPolyDP cv c);
            offset = Point (x_of boundRect) (y_of boundRect);
            joints_contours = roi_contours cv src boundRect
        in if length joints_contours \<le> 4 then contour_loop cv src cs tables_joints
           else contour_loop cv src cs
                  (tables_joints @ [translate offset joints_contours]))"

text \<open>
  \<^verbatim>\<open>ExtractTableJoints(filename)\<close>. After loading, \<^verbatim>\<open>if (!src.data)\<close> only writes
  \<^verbatim>\<open>"OpenCV Error: Cannot load image!"\<close> to the error stream: there is no \<open>return\<close>, and the
  function goes on with whatever matrix it has. No exception is caught anywhere, so one
  raised by the library before the loop leaves the function: \<open>None\<close>. Otherwise the loop
  starts from the empty \<open>tables_joints\<close>.
\<close>

definition ExtractTableJoints :: "Ext \<Rightarrow> string \<Rightarrow> Joint option" where
  "ExtractTableJoints cv filename =
     (let src = imread cv filename in
      case line_contours cv src of
        None \<Rightarrow> None
      | Some contours \<Rightarrow> Some (contour_loop cv src contours []))"

text \<open>
  The detector in the words of the spec (steps 2 to 6): a candidate is accepted when its
  area is not below 50 and the intersection mask cropped to the candidate's own bounding
  rectangle has more than 4 joint contours; its region is these joint contours moved by
  the offset of that rectangle.
\<close>

definition accepted :: "Ext \<Rightarrow> Mat \<Rightarrow> Point list \<Rightarrow> bool" where
  "accepted cv src c \<longleftrightarrow>
     \<not> contourArea cv c < 50 \<and> \<not> length (roi_contours cv src (boundingRect c)) \<le> 4"

definition region_of :: "Ext \<Rightarrow> Mat \<Rightarrow> Point list \<Rightarrow> Table" where
  "region_of cv src c =
     (let r = boundingRect c
      in translate (Point (x_of r) (y_of r)) (roi_contours cv src r))"

text \<open>
  The same with the rectangle the source takes: the bounding rectangle of the polygon
  that approximates the candidate (\<^verbatim>\<open>cv::approxPolyDP\<close> with tolerance 3, closed).
\<close>

definition accepted_polygon :: "Ext \<Rightarrow> Mat \<Rightarrow> Point list \<Rightarrow> bool" where
  "accepted_polygon cv src c \<longleftrightarrow>
     \<not> contourArea cv c < 50 \<and>
     \<not> length (roi_contours cv src (boundingRect (approxPolyDP cv c))) \<le> 4"

definition region_of_polygon :: "Ext \<Rightarrow> Mat \<Rightarrow> Point list \<Rightarrow> Table" where
  "region_of_polygon cv src c =
     (let r = boundingRect (approxPolyDP cv c)
      in translate (Point (x_of r) (y_of r)) (roi_contours cv src r))"

section \<open>Text output\<close>

text \<open>
  The single quote cannot stand first or last in a string literal, so it gets a name.
  \<open>show_int\<close> is \<^verbatim>\<open>operator<<\<close> on an \<^verbatim>\<open>int\<close> in the classic locale: decimal digits, a
  leading minus sign for a negative number.
\<close>

abbreviation sq :: string where
  "sq \<equiv> [CHR 0x27]"

definition digit :: "nat \<Rightarrow> char" where
  "digit d = ''0123456789'' ! d"

fun show_nat :: "nat \<Rightarrow> string" where
  "show_nat n = (if n < 10 then [digit n] else show_nat (n div 10) @ [digit (n mod 10)])"

declare show_nat.simps [simp del]

definition show_int :: "int \<Rightarrow> string" where
  "show_int i = (if i < 0 then ''-'' @ show_nat (nat (- i)) else show_nat (nat i))"

text \<open>\<^verbatim>\<open>static_cast<int>(b)\<close> of a \<^verbatim>\<open>bool\<close>, printed.\<close>

definition show_bool :: "bool \<Rightarrow> string" where
  "show_bool b = show_int (if b then 1 else 0)"

section \<open>The recognised words\<close>

text \<open>
  The result iterator belongs to the recogniser. The serializer only reads it, one word
  position at a time, so the iteration is modelled as the list of the positions it
  visits, each position a record of the answers the iterator gives there.
\<close>

datatype StrongScriptDirection =
  DIR_NEUTRAL | DIR_LEFT_TO_RIGHT | DIR_RIGHT_TO_LEFT | DIR_MIX

record Box =
  box_left :: int
  box_top :: int
  box_right :: int
  box_bottom :: int

record Word =
  empty_word :: bool  \<comment> \<open>\<^verbatim>\<open>Empty(RIL_WORD)\<close>\<close>
  utf8_text :: string  \<comment> \<open>\<^verbatim>\<open>GetUTF8Text(RIL_WORD)\<close>\<close>
  word_box :: Box  \<comment> \<open>\<^verbatim>\<open>BoundingBox(RIL_WORD, ...)\<close>\<close>
  block_box :: Box
  para_box :: Box
  line_box :: Box
  begin_block :: bool  \<comment> \<open>\<^verbatim>\<open>IsAtBeginningOf(RIL_BLOCK)\<close>\<close>
  begin_para :: bool
  begin_line :: bool
  last_word_in_line :: bool  \<comment> \<open>\<^verbatim>\<open>IsAtFinalElement(RIL_TEXTLINE, RIL_WORD)\<close>\<close>
  last_word_in_para :: bool
  last_word_in_block :: bool
  confidence :: int  \<comment> \<open>\<^verbatim>\<open>static_cast<int>(Confidence(RIL_WORD))\<close>\<close>
  from_dictionary :: bool  \<comment> \<open>\<^verbatim>\<open>WordIsFromDictionary()\<close>\<close>
  numeric :: bool  \<comment> \<open>\<^verbatim>\<open>WordIsNumeric()\<close>\<close>
  bold :: bool  \<comment> \<open>from \<^verbatim>\<open>WordFontAttributes\<close>, as are the next three\<close>
  italic :: bool
  pointsize :: int
  font_name :: "string option"
  lang :: "string option"  \<comment> \<open>\<^verbatim>\<open>WordRecognitionLanguage()\<close>, null or a string\<close>
  word_direction :: StrongScriptDirection  \<comment> \<open>\<^verbatim>\<open>WordDirection()\<close>\<close>
  paragraph_is_ltr :: bool  \<comment> \<open>\<^verbatim>\<open>ParagraphIsLtr()\<close>\<close>

text \<open>
  \<^verbatim>\<open>text.find_first_not_of(" \t\n\v\f\r") == std::string::npos\<close>: the word is skipped when
  all its bytes are among these six.
\<close>

definition is_blank :: "string \<Rightarrow> bool" where
  "is_blank t \<longleftrightarrow>
     list_all (\<lambda>c. c \<in> set [CHR '' '', CHR 0x09, CHR 0x0A, CHR 0x0B, CHR 0x0C, CHR 0x0D]) t"

text \<open>
  \<^verbatim>\<open>x = (left + right) / 2.0\<close> stored into an \<^verbatim>\<open>int\<close>: the quotient is truncated towards
  zero.
\<close>

definition half :: "int \<Rightarrow> int" where
  "half s = (if 0 \<le> s then s div 2 else - ((- s) div 2))"

definition center :: "Box \<Rightarrow> Point" where
  "center b = Point (half (box_left b + box_right b)) (half (box_top b + box_bottom b))"

section \<open>The serializer\<close>

text \<open>
  The local variables of \<^verbatim>\<open>GetAbbyyText\<close> that live across loop iterations, with the output
  stream. The counters \<open>wcnt\<close>, \<open>scnt\<close>, \<open>tcnt\<close> and \<open>gcnt\<close> are never read.
\<close>

record Cursor =
  abbyy_str :: string
  lcnt :: int
  bcnt :: int
  pcnt :: int
  para_is_ltr :: bool
  paragraph_lang :: "string option"
  prev_col :: int
  prev_row :: int
  prev_table_idx :: int

text \<open>What stays fixed during the loop over the words.\<close>

record Page =
  page_id :: int
  font_info :: bool
  tables_joints :: Joint
  escape :: "string \<Rightarrow> string"

definition emit :: "string \<Rightarrow> Cursor \<Rightarrow> Cursor" where
  "emit s st = st\<lparr>abbyy_str := abbyy_str st @ s\<rparr>"

definition AddBoxToAbbyy :: "Box \<Rightarrow> string" where
  "AddBoxToAbbyy b =
     ''left='' @ sq @ show_int (box_left b) @
     sq @ '' top='' @ sq @ show_int (box_top b) @
     sq @ '' right='' @ sq @ show_int (box_right b) @
     sq @ '' bottom='' @ sq @ show_int (box_bottom b) @
     sq @ ''>''"

text \<open>Opening a block (source lines 272 to 278).\<close>

definition open_block :: "Page \<Rightarrow> Word \<Rightarrow> Cursor \<Rightarrow> Cursor" where
  "open_block pg w st =
     (if begin_block w then
        emit (''   <div class='block'' @ sq @ '' id='' @ sq @ ''block_'' @ show_int (page_id pg) @
              ''_'' @ show_int (bcnt st) @ sq @ '' '' @ AddBoxToAbbyy (block_box w))
          (st\<lparr>para_is_ltr := True\<rparr>)
      else st)"

text \<open>
  A change of table (lines 295 to 300): whenever the table index of the word differs from
  the previous word's, both closing tags are written and the row and column are reset.
\<close>

definition table_change :: "int \<Rightarrow> Cursor \<Rightarrow> Cursor" where
  "table_change cur_table_idx st =
     (if prev_table_idx st \<noteq> cur_table_idx then
        (emit ''\<newline>     </tbody>'' (emit ''\<newline>    </table>'' st))
          \<lparr>prev_row := 0, prev_col := 0\<rparr>
      else st)"

definition open_table :: "int \<Rightarrow> Cursor \<Rightarrow> Cursor" where
  "open_table cur_table_idx st =
     (if cur_table_idx \<noteq> prev_table_idx st then
        emit ''\<newline>     <tbody>'' (emit ''\<newline>    <table>'' st)
      else st)"

text \<open>
  The body of the row loop once a boundary above the point is found (lines 314 to 325),
  and the loop itself with its \<open>break\<close>. The loop returns \<open>cur_row\<close> with the cursor.
\<close>

definition enter_row :: "int \<Rightarrow> Cursor \<Rightarrow> Cursor" where
  "enter_row cur_row st =
     (if prev_row st < cur_row then
        (let st1 = (if prev_row st \<noteq> 0
                    then (emit ''\<newline>      </tr>'' st)\<lparr>prev_col := 0\<rparr> else st)
         in (emit ''\<newline>      <tr>'' st1)\<lparr>prev_row := cur_row\<rparr>)
      else st)"

fun row_loop :: "int \<Rightarrow> int list \<Rightarrow> nat \<Rightarrow> Cursor \<Rightarrow> int \<times> Cursor" where
  "row_loop y [] i st = (0, st)"
| "row_loop y (b # bs) i st =
     (if y < b then (int i, enter_row (int i) st) else row_loop y bs (Suc i) st)"

text \<open>The column loop (lines 328 to 348).\<close>

definition enter_col :: "int \<Rightarrow> Cursor \<Rightarrow> Cursor" where
  "enter_col cur_col st =
     (if prev_col st < cur_col then
        (let st1 = (if prev_col st \<noteq> 0 then emit ''\<newline>       </td>'' st else st)
         in (emit ''\<newline>       <td>'' st1)\<lparr>prev_col := cur_col\<rparr>)
      else st)"

fun col_loop :: "int \<Rightarrow> int list \<Rightarrow> nat \<Rightarrow> Cursor \<Rightarrow> int \<times> Cursor" where
  "col_loop x [] i st = (0, st)"
| "col_loop x (b # bs) i st =
     (if x < b then (int i, enter_col (int i) st) else col_loop x bs (Suc i) st)"

text \<open>The word's own text with its emphasis tags, written in this order in both branches.\<close>

definition styled_text :: "Word \<Rightarrow> string" where
  "styled_text w =
     (if bold w then ''<strong>'' else []) @
     (if italic w then ''<em>'' else []) @
     utf8_text w @
     (if bold w then ''</strong>'' else []) @
     (if italic w then ''</em>'' else [])"

text \<open>
  The span of a word inside a table (lines 349 to 380): one output statement for the
  opening tag with all its attributes, then the text and the closing tag.
\<close>

definition table_head :: "Word \<Rightarrow> string" where
  "table_head w =
     ''\<newline>        <span '' @
     ''wordconfidence='' @ sq @ show_int (confidence w) @
     sq @ '' left='' @ sq @ show_int (box_left (word_box w)) @
     sq @ '' top='' @ sq @ show_int (box_top (word_box w)) @
     sq @ '' right='' @ sq @ show_int (box_right (word_box w)) @
     sq @ '' bottom='' @ sq @ show_int (box_bottom (word_box w)) @
     sq @ '' wordfirst='' @ sq @ show_bool (begin_line w) @
     sq @ '' wordfromdictionary='' @ sq @ show_bool (from_dictionary w) @
     sq @ '' wordnumeric='' @ sq @ show_bool (numeric w) @
     sq @ '' fontsize='' @ sq @ show_int (pointsize w) @
     sq @ ''>''"

definition table_span :: "Word \<Rightarrow> string" where
  "table_span w = table_head w @ styled_text w @ ''</span>''"

text \<open>
  The cell of a word inside table \<open>cur_table_idx\<close> (lines 307 to 348): the row loop on the
  y boundaries of that table with the y coordinate of the word's centre, then the column
  loop on its x boundaries with the x coordinate, both from index 1. The result holds the
  two local variables \<open>cur_row\<close> and \<open>cur_col\<close> and the cursor after the loops.
\<close>

definition table_cell :: "Page \<Rightarrow> Word \<Rightarrow> int \<Rightarrow> Cursor \<Rightarrow> int \<times> int \<times> Cursor" where
  "table_cell pg w cur_table_idx st =
     (let (cur_row, st1) =
             row_loop (pt_y (center (word_box w)))
               (drop 1 (y_coords (tables_joints pg) ! nat cur_table_idx)) 1 st;
          (cur_col, st2) =
             col_loop (pt_x (center (word_box w)))
               (drop 1 (x_coords (tables_joints pg) ! nat cur_table_idx)) 1 st1
      in (cur_row, cur_col, st2))"

text \<open>
  A word inside table \<open>cur_table_idx\<close> (lines 301 to 380): the table is opened when it is
  new, the cell is looked up, the span is written.
\<close>

definition table_word :: "Page \<Rightarrow> Word \<Rightarrow> int \<Rightarrow> Cursor \<Rightarrow> Cursor" where
  "table_word pg w cur_table_idx st =
     (let st1 = open_table cur_table_idx st;
          (cur_row, cur_col, st3) = table_cell pg w cur_table_idx st1
      in emit (table_span w) st3)"

text \<open>Opening a paragraph and a line in the flow branch (lines 382 to 401).\<close>

definition open_para :: "Page \<Rightarrow> Word \<Rightarrow> Cursor \<Rightarrow> Cursor" where
  "open_para pg w st =
     (if begin_para w then
        emit (''\<newline>    <p class='paragraph'' @ sq @
              (if \<not> paragraph_is_ltr w then '' dir='rtl'' @ sq else []) @
              '' id='' @ sq @ ''par_'' @ show_int (page_id pg) @ ''_'' @ show_int (pcnt st) @
              sq @ '' '' @
              (case lang w of None \<Rightarrow> [] | Some l \<Rightarrow> '' lang='' @ sq @ l @ sq) @
              AddBoxToAbbyy (para_box w))
          (st\<lparr>para_is_ltr := paragraph_is_ltr w, paragraph_lang := lang w\<rparr>)
      else st)"

definition open_line :: "Page \<Rightarrow> Word \<Rightarrow> Cursor \<Rightarrow> Cursor" where
  "open_line pg w st =
     (if begin_line w then
        emit (''\<newline>     <span class='line'' @ sq @ '' id='' @ sq @ ''line_'' @
              show_int (page_id pg) @ ''_'' @ show_int (lcnt st) @ sq @ '' '' @
              AddBoxToAbbyy (line_box w)) st
      else st)"

text \<open>
  The optional parts of a flow word: the language attribute
  (\<^verbatim>\<open>lang && (!paragraph_lang || strcmp(lang, paragraph_lang))\<close>), the font name
  (\<^verbatim>\<open>if (font_info) if (font_name)\<close>) and the direction written after the span.
\<close>

definition lang_attr :: "string option \<Rightarrow> Word \<Rightarrow> string" where
  "lang_attr para_lang w =
     (case lang w of
        None \<Rightarrow> []
      | Some l \<Rightarrow> if para_lang = None \<or> para_lang \<noteq> Some l
                  then sq @ '' lang='' @ sq @ l else [])"

definition font_attr :: "Page \<Rightarrow> Word \<Rightarrow> string" where
  "font_attr pg w =
     (if font_info pg then
        (case font_name w of None \<Rightarrow> [] | Some f \<Rightarrow> sq @ '' font_name='' @ sq @ escape pg f)
      else [])"

definition dir_marker :: "bool \<Rightarrow> Word \<Rightarrow> string" where
  "dir_marker para_ltr w =
     (case word_direction w of
        DIR_LEFT_TO_RIGHT \<Rightarrow> if \<not> para_ltr then '' dir='ltr'' @ sq else []
      | DIR_RIGHT_TO_LEFT \<Rightarrow> if para_ltr then '' dir='rtl'' @ sq else []
      | DIR_MIX \<Rightarrow> []
      | DIR_NEUTRAL \<Rightarrow> [])"

text \<open>
  The span of a word outside every table (lines 416 to 476), in the order of the output
  statements of the source: the opening of the tag up to \<open>wordfirst\<close>, the language
  attribute, the dictionary and numeric flags, the font name, the font size with the
  text and the closing tag, and the direction.
\<close>

definition flow_head :: "Word \<Rightarrow> string" where
  "flow_head w =
     ''\<newline>      <span class='word' '' @
     ''wordconfidence='' @ sq @ show_int (confidence w) @
     sq @ '' left='' @ sq @ show_int (box_left (word_box w)) @
     sq @ '' top='' @ sq @ show_int (box_top (word_box w)) @
     sq @ '' right='' @ sq @ show_int (box_right (word_box w)) @
     sq @ '' bottom='' @ sq @ show_int (box_bottom (word_box w)) @
     sq @ '' wordfirst='' @ sq @ show_bool (begin_line w)"

definition flow_flags :: "Word \<Rightarrow> string" where
  "flow_flags w =
     sq @ '' wordfromdictionary='' @ sq @ show_bool (from_dictionary w) @
     sq @ '' wordnumeric='' @ sq @ show_bool (numeric w)"

definition flow_tail :: "Word \<Rightarrow> string" where
  "flow_tail w =
     sq @ '' fontsize='' @ sq @ show_int (pointsize w) @
     sq @ ''>'' @
     styled_text w @
     ''</span>''"

definition flow_span :: "Page \<Rightarrow> Cursor \<Rightarrow> Word \<Rightarrow> string" where
  "flow_span pg st w =
     flow_head w @
     lang_attr (paragraph_lang st) w @
     flow_flags w @
     font_attr pg w @
     flow_tail w @
     dir_marker (para_is_ltr st) w"

definition flow_word :: "Page \<Rightarrow> Word \<Rightarrow> Cursor \<Rightarrow> Cursor" where
  "flow_word pg w st =
     (let st1 = open_para pg w st;
          st2 = open_line pg w st1
      in emit (flow_span pg st2 w) st2)"

text \<open>Closing the line, the paragraph and the block (lines 574 to 586).\<close>

definition close_line :: "Word \<Rightarrow> int \<Rightarrow> Cursor \<Rightarrow> Cursor" where
  "close_line w cur_table_idx st =
     (if last_word_in_line w \<and> cur_table_idx = - 1
      then (emit ''\<newline>     </span>'' st)\<lparr>lcnt := lcnt st + 1\<rparr> else st)"

definition close_para :: "Word \<Rightarrow> int \<Rightarrow> Cursor \<Rightarrow> Cursor" where
  "close_para w cur_table_idx st =
     (if last_word_in_para w \<and> cur_table_idx = - 1
      then (emit ''\<newline>    </p>\<newline>'' st)\<lparr>pcnt := pcnt st + 1, para_is_ltr := True\<rparr>
      else st)"

definition close_block :: "Word \<Rightarrow> Cursor \<Rightarrow> Cursor" where
  "close_block w st =
     (if last_word_in_block w
      then (emit ''   </div>\<newline>'' st)\<lparr>bcnt := bcnt st + 1\<rparr> else st)"

text \<open>One pass of the loop body for a word that is neither empty nor blank.\<close>

definition process_word :: "Page \<Rightarrow> Word \<Rightarrow> Cursor \<Rightarrow> Cursor" where
  "process_word pg w st =
     (let st1 = open_block pg w st;
          cur_table_idx = find_table_idx (center (word_box w)) (tables_joints pg);
          st2 = table_change cur_table_idx st1;
          st3 = (if cur_table_idx \<noteq> - 1 then table_word pg w cur_table_idx st2
                 else flow_word pg w st2);
          st4 = st3\<lparr>prev_table_idx := cur_table_idx\<rparr>
      in close_block w (close_para w cur_table_idx (close_line w cur_table_idx st4)))"

text \<open>
  \<^verbatim>\<open>while (!res_it->Empty(RIL_BLOCK))\<close>: empty and blank words are stepped over, every other
  word is processed and the iterator moved to the next word.
\<close>

fun word_loop :: "Page \<Rightarrow> Word list \<Rightarrow> Cursor \<Rightarrow> Cursor" where
  "word_loop pg [] st = st"
| "word_loop pg (w # ws) st =
     (if empty_word w then word_loop pg ws st
      else if is_blank (utf8_text w) then word_loop pg ws st
      else word_loop pg ws (process_word pg w st))"

text \<open>
  The state of the API object that \<^verbatim>\<open>GetAbbyyText\<close> reads: whether the engine exists, whether
  a recognition result is present, what \<^verbatim>\<open>Recognize\<close> returns when it has to be called, the
  input name, the page rectangle, the font switch (\<^verbatim>\<open>GetBoolVariable("abbyy_font_info", ...)\<close>)
  and the words the iterator yields. The debug switch only opens windows and prints to the
  console; the character-box switch is read and never used. The Windows-only conversion of
  the file name is left out. The members \<^verbatim>\<open>input_file_\<close> and \<^verbatim>\<open>rect_left_\<close> to
  \<^verbatim>\<open>rect_height_\<close> lose their trailing underscore, which a name cannot end with here.
\<close>

record Api =
  tesseract_present :: bool
  page_res_present :: bool
  recognize_result :: int
  input_file :: "string option"
  rect_left :: int
  rect_top :: int
  rect_width :: int
  rect_height :: int
  abbyy_font_info :: bool
  words :: "Word list"

text \<open>
  The opening of the page element up to the quote before the file name (lines 180 to 183),
  and what follows the file name (lines 243 to 253). \<open>page_number\<close> counts the images of one
  document, so \<open>page_number + 1\<close> is far from the 32-bit limit.
\<close>

definition page_open :: "int \<Rightarrow> string" where
  "page_open page_number =
     ''  <div class='page'' @ sq @ '' id='' @ sq @ ''page_'' @ show_int (page_number + 1) @ sq @
     '' filename='' @ sq"

definition page_rect :: "Api \<Rightarrow> int \<Rightarrow> string" where
  "page_rect api page_number =
     sq @ '' left='' @ sq @ show_int (rect_left api) @
     sq @ '' top='' @ sq @ show_int (rect_top api) @
     sq @ '' width='' @ sq @ show_int (rect_width api) @
     sq @ '' height='' @ sq @ show_int (rect_height api) @
     sq @ '' ppageno='' @ sq @ show_int page_number @
     sq @ ''>\<newline>''"

definition init_cursor :: "string \<Rightarrow> Cursor" where
  "init_cursor s =
     \<lparr>abbyy_str = s, lcnt = 1, bcnt = 1, pcnt = 1, para_is_ltr = True, paragraph_lang = None,
      prev_col = 0, prev_row = 0, prev_table_idx = - 1\<rparr>"

text \<open>
  \<^verbatim>\<open>GetAbbyyText(monitor, page_number)\<close>. It returns the null pointer when there is no engine
  or recognition fails, and it is left by the exception of the image library when table
  detection raises one; otherwise it returns the text.
\<close>

datatype failure = Null_result | Cv_exception

definition GetAbbyyText :: "Ext \<Rightarrow> Api \<Rightarrow> int \<Rightarrow> failure + string" where
  "GetAbbyyText cv api page_number =
     (if \<not> tesseract_present api \<or> (\<not> page_res_present api \<and> recognize_result api < 0)
      then Inl Null_result
      else
        let input_name = (if input_file api = None
                          then SetInputName cv None (input_file api) else input_file api)
        in case input_name of
             Some name \<Rightarrow>
               (let filename = HOcrEscape cv name in
                case ExtractTableJoints cv filename of
                  None \<Rightarrow> Inl Cv_exception
                | Some tj \<Rightarrow>
                let pg = \<lparr>page_id = page_number + 1, font_info = abbyy_font_info api,
                          tables_joints = tj, escape = HOcrEscape cv\<rparr>;
                    st0 = init_cursor
                      (page_open page_number @ filename @ page_rect api page_number);
                    st = word_loop pg (words api) st0
                in Inr (abbyy_str st @ ''  </div>\<newline>''))
           | None \<Rightarrow> Inr (page_open page_number @ ''unknown''))"

section \<open>Checking the markup\<close>

text \<open>
  The stack-based validator the spec asks the output to pass. \<open>scan_tags\<close> reads the tags
  of a text from left to right (the second argument holds the characters of a tag that
  has been opened by \<open><\<close> and not yet closed by \<open>>\<close>); a tag is named by what stands before
  its first blank, and is a closing tag when it starts with a slash. \<open>balanced\<close> pushes the
  name of every opening tag and pops on every closing tag, which must name the top of the
  stack; the stack must be empty at the end.
\<close>

datatype tag = Open string | Close string

definition make_tag :: "string \<Rightarrow> tag" where
  "make_tag body =
     (if take 1 body = ''/'' then Close (takeWhile (\<lambda>c. c \<noteq> CHR '' '') (drop 1 body))
      else Open (takeWhile (\<lambda>c. c \<noteq> CHR '' '') body))"

fun scan_tags :: "string \<Rightarrow> string option \<Rightarrow> tag list" where
  "scan_tags [] cur = []"
| "scan_tags (c # cs) None =
     (if c = CHR ''<'' then scan_tags cs (Some []) else scan_tags cs None)"
| "scan_tags (c # cs) (Some body) =
     (if c = CHR ''>'' then make_tag body # scan_tags cs None
      else scan_tags cs (Some (body @ [c])))"

fun balanced :: "tag list \<Rightarrow> string list \<Rightarrow> bool" where
  "balanced [] stack = (stack = [])"
| "balanced (Open n # ts) stack = balanced ts (n # stack)"
| "balanced (Close n # ts) stack =
     (case stack of [] \<Rightarrow> False | m # rest \<Rightarrow> m = n \<and> balanced ts rest)"

definition text_of :: "failure + string \<Rightarrow> string" where
  "text_of r = (case r of Inl e \<Rightarrow> [] | Inr s \<Rightarrow> s)"

definition markup_tags :: "failure + string \<Rightarrow> tag list" where
  "markup_tags r = scan_tags (text_of r) None"

section \<open>The bounding rectangle in the words of the spec\<close>

text \<open>
  A point is in the bounding rectangle of a table when the table has a joint point at all
  and the point lies between the least and the greatest coordinate of the joint points
  on both axes, all four edges included.
\<close>

definition in_bounding_rect :: "Point \<Rightarrow> Table \<Rightarrow> bool" where
  "in_bounding_rect pt table \<longleftrightarrow>
     concat table \<noteq> [] \<and>
     Min (pt_x ` set (concat table)) \<le> pt_x pt \<and> pt_x pt \<le> Max (pt_x ` set (concat table)) \<and>
     Min (pt_y ` set (concat table)) \<le> pt_y pt \<and> pt_y pt \<le> Max (pt_y ` set (concat table))"

section \<open>A page with one ruled table\<close>

text \<open>
  A page of 200 by 100 pixels holding one ruled table with corners (10, 10) and (110, 50),
  two columns and two rows: nine joints, at x = 10, 60, 110 and y = 10, 30, 50. The image
  library reports the outline of the table as the only contour, of area 4000, and inside
  its bounding rectangle the nine joints as one-point contours relative to the corner
  (10, 10); every file can be read. \<open>HOcrEscape\<close> has nothing to escape in the names used
  here. \<open>SetInputName\<close> stores the given name, the empty string for a null name:
  \<^verbatim>\<open>GetAbbyyText\<close> relies on that, since its Windows branch dereferences \<^verbatim>\<open>input_file_\<close>
  right after the call.
\<close>

definition grid_joints :: "Point list list" where
  "grid_joints =
     [[Point 0 0], [Point 50 0], [Point 100 0],
      [Point 0 20], [Point 50 20], [Point 100 20],
      [Point 0 40], [Point 50 40], [Point 100 40]]"

definition outline :: "Point list" where
  "outline = [Point 10 10, Point 10 50, Point 110 50, Point 110 10]"

definition cv_one_table :: Ext where
  "cv_one_table =
     \<lparr>imread = (\<lambda>f. Image f),
      line_contours = (\<lambda>src. Some [outline]),
      contourArea = (\<lambda>c. 4000),
      approxPolyDP = (\<lambda>c. c),
      roi_contours = (\<lambda>src r. grid_joints),
      HOcrEscape = (\<lambda>s. s),
      SetInputName = (\<lambda>name cur. Some (case name of None \<Rightarrow> [] | Some n \<Rightarrow> n))\<rparr>"

definition one_table :: Joint where
  "one_table =
     [[[Point 10 10], [Point 60 10], [Point 110 10],
       [Point 10 30], [Point 60 30], [Point 110 30],
       [Point 10 50], [Point 60 50], [Point 110 50]]]"

text \<open>
  The library on a page whose file cannot be read: loading gives the empty matrix, on
  which the calls that follow raise (the empty matrix has no columns, so the structuring
  element asked for has width 0).
\<close>

definition cv_unreadable :: Ext where
  "cv_unreadable =
     cv_one_table\<lparr>imread := (\<lambda>f. Empty_Mat),
                  line_contours := (\<lambda>src. case src of Empty_Mat \<Rightarrow> None
                                           | Image f \<Rightarrow> Some [outline])\<rparr>"

text \<open>
  A page whose table has a bottom rule that sags by two pixels in the middle. The contour
  of the table has a vertex at (60, 52), which the polygon approximation with tolerance 3
  drops; the page has five joints, the four corners of the table and the crossing at
  (60, 52). Cropping keeps the joints that lie inside the rectangle and makes them
  relative to its corner.
\<close>

definition sagging_outline :: "Point list" where
  "sagging_outline = [Point 10 10, Point 10 50, Point 60 52, Point 110 50, Point 110 10]"

definition sagging_joints :: "Point list list" where
  "sagging_joints =
     [[Point 10 10], [Point 110 10], [Point 10 50], [Point 110 50], [Point 60 52]]"

definition crop_joints :: "Point list list \<Rightarrow> Rect \<Rightarrow> Point list list" where
  "crop_joints joints r =
     map (map (\<lambda>p. Point (pt_x p - x_of r) (pt_y p - y_of r)))
       (filter (list_all (contains r)) joints)"

definition cv_sagging :: Ext where
  "cv_sagging =
     cv_one_table\<lparr>line_contours := (\<lambda>src. Some [sagging_outline]),
                  approxPolyDP := (\<lambda>c. outline),
                  roi_contours := (\<lambda>src r. crop_joints sagging_joints r)\<rparr>"

definition box :: "int \<Rightarrow> int \<Rightarrow> int \<Rightarrow> int \<Rightarrow> Box" where
  "box l t r b = \<lparr>box_left = l, box_top = t, box_right = r, box_bottom = b\<rparr>"

text \<open>
  An English word in Arial, written left to right, in the middle of its line; \<open>starts\<close>
  makes a word the first of its line, paragraph and block, \<open>ends\<close> the last. \<open>hebrew\<close>
  turns it into a word of another language, font and direction.
\<close>

definition word_at :: "string \<Rightarrow> Box \<Rightarrow> Word" where
  "word_at t b =
     \<lparr>empty_word = False, utf8_text = t, word_box = b, block_box = box 0 0 200 100,
      para_box = box 0 0 200 100, line_box = box 0 15 200 25,
      begin_block = False, begin_para = False, begin_line = False,
      last_word_in_line = False, last_word_in_para = False, last_word_in_block = False,
      confidence = 90, from_dictionary = True, numeric = False,
      bold = False, italic = False, pointsize = 12, font_name = Some ''Arial'',
      lang = Some ''eng'', word_direction = DIR_LEFT_TO_RIGHT, paragraph_is_ltr = True\<rparr>"

definition starts :: "Word \<Rightarrow> Word" where
  "starts w = w\<lparr>begin_block := True, begin_para := True, begin_line := True\<rparr>"

definition ends :: "Word \<Rightarrow> Word" where
  "ends w = w\<lparr>last_word_in_line := True, last_word_in_para := True, last_word_in_block := True\<rparr>"

definition hebrew :: "Word \<Rightarrow> Word" where
  "hebrew w =
     w\<lparr>lang := Some ''heb'', font_name := Some ''Courier'', word_direction := DIR_RIGHT_TO_LEFT\<rparr>"

definition api_of :: "Word list \<Rightarrow> Api" where
  "api_of ws =
     \<lparr>tesseract_present = True, page_res_present = True, recognize_result = 0,
      input_file = Some ''p.png'', rect_left = 0, rect_top = 0, rect_width = 200,
      rect_height = 100, abbyy_font_info = True, words = ws\<rparr>"

definition page_of :: "Joint \<Rightarrow> Page" where
  "page_of tj = \<lparr>page_id = 1, font_info = True, tables_joints = tj, escape = (\<lambda>s. s)\<rparr>"


text \<open>
  Three pages over the one table: a single word inside the table; a word outside the
  table followed, in the same paragraph and line, by a Hebrew word inside the table; and
  the same two words with the second one outside the table as well.
\<close>

definition page_word_in_table :: Api where
  "page_word_in_table = api_of [starts (ends (word_at ''A'' (box 20 15 40 25)))]"

definition page_hebrew_in_table :: Api where
  "page_hebrew_in_table =
     api_of [starts (word_at ''A'' (box 120 15 140 25)),
             ends (hebrew (word_at ''B'' (box 20 15 40 25)))]"

definition page_hebrew_in_flow :: Api where
  "page_hebrew_in_flow =
     api_of [starts (word_at ''A'' (box 120 15 140 25)),
             ends (hebrew (word_at ''B'' (box 150 15 170 25)))]"

definition page_no_name :: Api where
  "page_no_name = (api_of [])\<lparr>input_file := None\<rparr>"

section \<open>Properties of the grid\<close>

lemma k_loop_iff: "k_loop cs v stop \<longleftrightarrow> stop \<or> within_tolerance cs v"
  by (induction cs) (auto simp: within_tolerance_def)

lemma l_loop_x_spec: "l_loop_x ps xs = accumulate_group xs (map pt_x ps)"
  by (induction ps arbitrary: xs) (simp_all add: k_loop_iff)

lemma l_loop_y_spec: "l_loop_y ps False ys = accumulate_group ys (map pt_y ps)"
  by (induction ps arbitrary: ys) (simp_all add: k_loop_iff)

lemma j_loop_x_spec:
  "j \<le> length table \<Longrightarrow>
   j_loop_x table j xs = foldl accumulate_group xs (rev (map (map pt_x) (take j table)))"
proof (induction j arbitrary: xs)
  case 0
  then show ?case by simp
next
  case (Suc j)
  then have "take (Suc j) table = take j table @ [table ! j]"
    by (simp add: take_Suc_conv_app_nth)
  with Suc show ?case by (simp add: l_loop_x_spec)
qed

lemma j_loop_y_spec:
  "j \<le> length table \<Longrightarrow>
   j_loop_y table j ys = foldl accumulate_group ys (rev (map (map pt_y) (take j table)))"
proof (induction j arbitrary: ys)
  case 0
  then show ?case by simp
next
  case (Suc j)
  then have "take (Suc j) table = take j table @ [table ! j]"
    by (simp add: take_Suc_conv_app_nth)
  with Suc show ?case by (simp add: l_loop_y_spec)
qed

lemma apart_snoc:
  assumes "apart acc" and "\<not> within_tolerance acc v"
  shows "apart (acc @ [v])"
proof -
  from assms(2) have far: "\<forall>c \<in> set acc. 3 \<le> \<bar>c - v\<bar>"
    by (auto simp: within_tolerance_def)
  then have "v \<notin> set acc" by fastforce
  moreover from far have "\<forall>c \<in> set acc. 3 \<le> \<bar>v - c\<bar>" by fastforce
  ultimately show ?thesis using assms(1) far by (auto simp: apart_def)
qed

lemma apart_accumulate_group: "apart acc \<Longrightarrow> apart (accumulate_group acc vs)"
  by (induction vs arbitrary: acc) (simp_all add: apart_snoc)

lemma apart_foldl: "apart acc \<Longrightarrow> apart (foldl accumulate_group acc gs)"
  by (induction gs arbitrary: acc) (simp_all add: apart_accumulate_group)

lemma apart_sort:
  assumes "apart cs"
  shows "sorted_wrt (\<lambda>a b. a + 3 \<le> b) (sort cs)"
proof -
  from assms have "distinct (sort cs)" by (simp add: apart_def)
  then have strict: "sorted_wrt (<) (sort cs)"
    by (simp add: strict_sorted_iff)
  have "\<And>a b. a \<in> set (sort cs) \<Longrightarrow> b \<in> set (sort cs) \<Longrightarrow> a < b \<Longrightarrow> a + 3 \<le> b"
  proof -
    fix a b :: int
    assume "a \<in> set (sort cs)" "b \<in> set (sort cs)" "a < b"
    then have "a \<in> set cs" "b \<in> set cs" "a \<noteq> b" by simp_all
    with assms have "3 \<le> \<bar>a - b\<bar>" unfolding apart_def by blast
    with \<open>a < b\<close> show "a + 3 \<le> b" by linarith
  qed
  with strict show ?thesis by (rule sorted_wrt_mono_rel[rotated])
qed

lemma apart_spec_axis: "sorted_wrt (\<lambda>a b. a + 3 \<le> b) (spec_axis groups)"
  unfolding spec_axis_def by (rule apart_sort, rule apart_foldl) (simp add: apart_def)

lemma table_x_coords_spec: "table_x_coords table = spec_axis (map (map pt_x) table)"
  by (simp add: table_x_coords_def spec_axis_def j_loop_x_spec)

lemma table_y_coords_spec: "table_y_coords table = spec_axis (map (map pt_y) table)"
  by (simp add: table_y_coords_def spec_axis_def j_loop_y_spec)

text \<open>
  C5. The x and the y boundaries of every table are strictly increasing after sorting, and
  any two boundaries of one axis are at least the tolerance of 3 pixels apart: each
  boundary is at least 3 above every boundary that stands before it.
\<close>

theorem grid_boundaries_separated:
  "sorted_wrt (\<lambda>a b. a + 3 \<le> b) (table_x_coords table) \<and>
   sorted_wrt (\<lambda>a b. a + 3 \<le> b) (table_y_coords table)"
  by (simp add: table_x_coords_spec table_y_coords_spec apart_spec_axis)

theorem grid_boundaries_separated_witness:
  "sorted_wrt (\<lambda>a b. a + 3 \<le> b) (table_x_coords (hd one_table)) \<and>
   table_x_coords (hd one_table) = [10, 60, 110] \<and>
   table_y_coords (hd one_table) = [10, 30, 50]"
proof -
  have "table_x_coords (hd one_table) = [10, 60, 110]" by code_simp
  moreover have "table_y_coords (hd one_table) = [10, 30, 50]" by code_simp
  ultimately show ?thesis using grid_boundaries_separated [of "hd one_table"] by simp
qed

text \<open>
  C6. On each axis the boundaries computed by the loops of \<^verbatim>\<open>GetAbbyyText\<close> are those of the
  reference algorithm: groups in reverse discovery order, the coordinates of a group in
  order up to the first one within 3 pixels of a coordinate already accumulated, the
  result sorted ascending.
\<close>

theorem grid_is_reference_algorithm:
  "table_x_coords table = spec_axis (map (map pt_x) table) \<and>
   table_y_coords table = spec_axis (map (map pt_y) table)"
  by (simp add: table_x_coords_spec table_y_coords_spec)

theorem grid_is_reference_algorithm_witness:
  "table_x_coords [[Point 0 0, Point 1 7, Point 9 9], [Point 5 5, Point 20 5]] = [0, 5, 20] \<and>
   spec_axis [[0, 1, 9], [5, 20]] = [0, 5, 20] \<and>
   table_y_coords [[Point 0 0, Point 1 7, Point 9 9], [Point 5 5, Point 20 5]] = [0, 5] \<and>
   spec_axis [[0, 7, 9], [5, 5]] = [0, 5]"
proof -
  have "table_x_coords [[Point 0 0, Point 1 7, Point 9 9], [Point 5 5, Point 20 5]] = [0, 5, 20]"
    by code_simp
  moreover have
    "table_y_coords [[Point 0 0, Point 1 7, Point 9 9], [Point 5 5, Point 20 5]] = [0, 5]"
    by code_simp
  ultimately show ?thesis
    using grid_is_reference_algorithm
      [of "[[Point 0 0, Point 1 7, Point 9 9], [Point 5 5, Point 20 5]]"]
    by simp
qed

section \<open>Properties of table membership\<close>

lemma fold_min_Min: "fold min (map f ps) (f p) = Min (f ` set (p # ps))"
  by (metis Min.set_eq_fold list.map(2) list.set_map)

lemma fold_max_Max: "fold max (map f ps) (f p) = Max (f ` set (p # ps))"
  by (metis Max.set_eq_fold list.map(2) list.set_map)

lemma bounding_Cons:
  "contains (boundingRect (p # ps)) pt \<longleftrightarrow>
     Min (pt_x ` set (p # ps)) \<le> pt_x pt \<and> pt_x pt \<le> Max (pt_x ` set (p # ps)) \<and>
     Min (pt_y ` set (p # ps)) \<le> pt_y pt \<and> pt_y pt \<le> Max (pt_y ` set (p # ps))"
  unfolding boundingRect_def contains_def Let_def fold_min_Min fold_max_Max
  by (simp del: set_simps image_insert Min_insert Max_insert)

lemma IsPointInsideTable_iff: "IsPointInsideTable pt t \<longleftrightarrow> in_bounding_rect pt t"
proof (cases "concat t")
  case Nil
  show ?thesis
    unfolding IsPointInsideTable_def in_bounding_rect_def Nil
    by (simp add: boundingRect_def contains_def)
next
  case (Cons p ps)
  show ?thesis
    unfolding IsPointInsideTable_def in_bounding_rect_def Let_def Cons bounding_Cons
    by simp
qed

lemma table_loop_none:
  "table_loop pt ts k = - 1 \<longleftrightarrow> (\<forall>t \<in> set ts. \<not> IsPointInsideTable pt t)"
  by (induction ts arbitrary: k) auto

lemma table_loop_range: "table_loop pt ts k = - 1 \<or> int k \<le> table_loop pt ts k"
proof (induction ts arbitrary: k)
  case Nil
  then show ?case by simp
next
  case (Cons t ts)
  from Cons[of "Suc k"] show ?case by auto
qed

lemma table_loop_some:
  "table_loop pt ts k = int (k + n) \<longleftrightarrow>
     n < length ts \<and> IsPointInsideTable pt (ts ! n) \<and> (\<forall>m<n. \<not> IsPointInsideTable pt (ts ! m))"
proof (induction ts arbitrary: k n)
  case Nil
  then show ?case by simp
next
  case (Cons t ts)
  show ?case
  proof (cases n)
    case 0
    have "table_loop pt ts (Suc k) \<noteq> int k"
      using table_loop_range[of pt ts "Suc k"] by auto
    then show ?thesis using 0 by auto
  next
    case (Suc n')
    then show ?thesis using Cons.IH[of "Suc k" n'] 
      by (auto simp: less_Suc_eq_0_disj)
  qed
qed

text \<open>
  C4. Membership resolution returns the index of the first table, in list order, whose
  bounding rectangle over all its joint points contains the point, all four edges
  included, and -1 (no table) when no rectangle contains it.
\<close>

theorem membership_first_containing_table:
  "(find_table_idx pt tables = - 1 \<or> (\<exists>k<length tables. find_table_idx pt tables = int k)) \<and>
   (find_table_idx pt tables = - 1 \<longleftrightarrow> (\<forall>t \<in> set tables. \<not> in_bounding_rect pt t)) \<and>
   (find_table_idx pt tables = int n \<longleftrightarrow>
      n < length tables \<and> in_bounding_rect pt (tables ! n) \<and>
      (\<forall>m<n. \<not> in_bounding_rect pt (tables ! m)))"
proof -
  have none: "find_table_idx pt tables = - 1 \<longleftrightarrow> (\<forall>t \<in> set tables. \<not> in_bounding_rect pt t)"
    by (simp add: find_table_idx_def table_loop_none IsPointInsideTable_iff)
  have some: "find_table_idx pt tables = int j \<longleftrightarrow>
      j < length tables \<and> in_bounding_rect pt (tables ! j) \<and>
      (\<forall>m<j. \<not> in_bounding_rect pt (tables ! m))" for j
    using table_loop_some [of pt tables 0 j]
    by (simp add: find_table_idx_def IsPointInsideTable_iff)
  have "find_table_idx pt tables = - 1 \<or> (\<exists>k<length tables. find_table_idx pt tables = int k)"
  proof (cases "\<forall>t \<in> set tables. \<not> in_bounding_rect pt t")
    case True
    then show ?thesis using none by simp
  next
    case False
    then have ex: "\<exists>j. j < length tables \<and> in_bounding_rect pt (tables ! j)"
      by (metis in_set_conv_nth)
    define j where "j = (LEAST j. j < length tables \<and> in_bounding_rect pt (tables ! j))"
    from ex have "j < length tables \<and> in_bounding_rect pt (tables ! j)"
      unfolding j_def by (rule LeastI_ex)
    moreover have "\<forall>m<j. \<not> in_bounding_rect pt (tables ! m)"
    proof (intro allI impI)
      fix m assume "m < j"
      then have "\<not> (m < length tables \<and> in_bounding_rect pt (tables ! m))"
        unfolding j_def by (rule not_less_Least)
      with \<open>m < j\<close> calculation show "\<not> in_bounding_rect pt (tables ! m)" by simp
    qed
    ultimately have "find_table_idx pt tables = int j" using some by simp
    with \<open>j < length tables \<and> in_bounding_rect pt (tables ! j)\<close> show ?thesis by blast
  qed
  with none some show ?thesis by blast
qed

theorem membership_first_containing_table_witness:
  "find_table_idx (Point 110 50) (one_table @ one_table) = 0 \<and>
   in_bounding_rect (Point 110 50) ((one_table @ one_table) ! 0) \<and>
   find_table_idx (Point 111 50) (one_table @ one_table) = - 1 \<and>
   \<not> in_bounding_rect (Point 111 50) ((one_table @ one_table) ! 1)"
proof -
  have a: "find_table_idx (Point 110 50) (one_table @ one_table) = int 0" by code_simp
  have b: "find_table_idx (Point 111 50) (one_table @ one_table) = - 1" by code_simp
  have c: "(one_table @ one_table) ! 1 \<in> set (one_table @ one_table)"
    by (simp add: one_table_def)
  from a membership_first_containing_table [of "Point 110 50" "one_table @ one_table" 0]
  have "in_bounding_rect (Point 110 50) ((one_table @ one_table) ! 0)" by blast
  moreover from b c membership_first_containing_table [of "Point 111 50" "one_table @ one_table" 0]
  have "\<not> in_bounding_rect (Point 111 50) ((one_table @ one_table) ! 1)" by blast
  ultimately show ?thesis using a b by simp
qed


section \<open>Properties of the cell lookup\<close>

lemma row_loop_fst: "fst (row_loop y bs i st) = int (first_below y bs i)"
  by (induction bs arbitrary: i) simp_all

lemma col_loop_fst: "fst (col_loop x bs i st) = int (first_below x bs i)"
  by (induction bs arbitrary: i) simp_all

lemma row_loop_unchanged: "first_below y bs i = 0 \<Longrightarrow> 0 < i \<Longrightarrow> snd (row_loop y bs i st) = st"
  by (induction bs arbitrary: i) (simp_all split: if_splits)

lemma col_loop_unchanged: "first_below x bs i = 0 \<Longrightarrow> 0 < i \<Longrightarrow> snd (col_loop x bs i st) = st"
  by (induction bs arbitrary: i) (simp_all split: if_splits)

lemma first_below_none: "\<forall>b \<in> set bs. \<not> v < b \<Longrightarrow> first_below v bs i = 0"
  by (induction bs arbitrary: i) simp_all

lemma first_below_at:
  "k < length bs \<Longrightarrow> v < bs ! k \<Longrightarrow> \<forall>m<k. \<not> v < bs ! m \<Longrightarrow> first_below v bs i = i + k"
proof (induction bs arbitrary: i k)
  case Nil
  then show ?case by simp
next
  case (Cons b bs)
  show ?case
  proof (cases k)
    case 0
    with Cons.prems show ?thesis by simp
  next
    case (Suc k')
    from Cons.prems Suc have "\<not> v < b" by auto
    moreover have "first_below v bs (Suc i) = Suc i + k'"
      using Cons.prems Suc by (intro Cons.IH) auto
    ultimately show ?thesis using Suc by simp
  qed
qed

lemma first_below_range: "first_below v bs i = 0 \<or> i \<le> first_below v bs i"
proof (induction bs arbitrary: i)
  case Nil
  then show ?case by simp
next
  case (Cons b bs)
  from Cons[of "Suc i"] show ?case by auto
qed

lemma first_below_mono:
  "v1 \<le> v2 \<Longrightarrow> first_below v2 bs i \<noteq> 0 \<Longrightarrow> first_below v1 bs i \<le> first_below v2 bs i"
proof (induction bs arbitrary: i)
  case Nil
  then show ?case by simp
next
  case (Cons b bs)
  note ge = first_below_range[of v2 bs "Suc i"]
  show ?case
  proof (cases "v1 < b")
    case True
    then show ?thesis using Cons.prems ge by (auto split: if_splits)
  next
    case False
    with Cons show ?thesis by (auto split: if_splits)
  qed
qed

lemma cur_index_least:
  assumes "\<exists>i. 1 \<le> i \<and> i < length cs \<and> v < cs ! i"
  shows "cur_index v cs = (LEAST i. 1 \<le> i \<and> i < length cs \<and> v < cs ! i)"
proof -
  define P where "P i \<longleftrightarrow> 1 \<le> i \<and> i < length cs \<and> v < cs ! i" for i
  define i0 where "i0 = (LEAST i. P i)"
  from assms have "\<exists>i. P i" by (simp add: P_def)
  then have "P i0" unfolding i0_def by (metis LeastI)
  have minimal: "\<not> P m" if "m < i0" for m
    using that unfolding i0_def by (rule not_less_Least)
  from \<open>P i0\<close> obtain k where k: "i0 = Suc k" by (cases i0) (auto simp: P_def)
  from \<open>P i0\<close> k obtain c bs where cs: "cs = c # bs" by (cases cs) (auto simp: P_def)
  have "first_below v bs 1 = 1 + k"
  proof (rule first_below_at)
    show "k < length bs" using \<open>P i0\<close> k cs by (simp add: P_def)
    show "v < bs ! k" using \<open>P i0\<close> k cs by (simp add: P_def)
    show "\<forall>m<k. \<not> v < bs ! m"
    proof (intro allI impI)
      fix m assume "m < k"
      then have "\<not> P (Suc m)" using minimal[of "Suc m"] k by simp
      moreover have "Suc m < length cs" using \<open>m < k\<close> \<open>P i0\<close> k by (simp add: P_def)
      ultimately show "\<not> v < bs ! m" using cs by (simp add: P_def)
    qed
  qed
  then have "cur_index v cs = i0" by (simp add: cur_index_def cs k)
  then show ?thesis by (simp add: i0_def P_def)
qed

lemma cur_index_beyond:
  assumes "sorted cs" and "cs \<noteq> []" and "last cs \<le> v"
  shows "cur_index v cs = 0"
proof -
  have "\<not> v < b" if "b \<in> set (drop 1 cs)" for b
  proof -
    from that have "b \<in> set cs" by (rule in_set_dropD)
    then obtain i where i: "i < length cs" "cs ! i = b"
      by (auto simp: in_set_conv_nth)
    have "cs ! i \<le> cs ! (length cs - 1)"
      using assms(1) i(1) by (intro sorted_nth_mono) simp_all
    then have "b \<le> last cs"
      using i(2) assms(2) by (simp add: last_conv_nth)
    with assms(3) show ?thesis by simp
  qed
  then show ?thesis by (simp add: cur_index_def first_below_none)
qed

lemma sorted_y_coords: "n < length tables \<Longrightarrow> sorted (y_coords tables ! n)"
  by (simp add: y_coords_def table_y_coords_def)

lemma sorted_x_coords: "n < length tables \<Longrightarrow> sorted (x_coords tables ! n)"
  by (simp add: x_coords_def table_x_coords_def)

lemma find_table_idx_bound: "find_table_idx pt tables = int n \<Longrightarrow> n < length tables"
  using table_loop_some [of pt tables 0 n] by (simp add: find_table_idx_def)


lemma cur_index_boundary: "cur_index v cs = boundary_index v cs"
proof (cases "\<exists>i. 1 \<le> i \<and> i < length cs \<and> v < cs ! i")
  case True
  then show ?thesis by (simp add: boundary_index_def cur_index_least)
next
  case False
  have "\<not> v < b" if "b \<in> set (drop 1 cs)" for b
  proof -
    from that obtain k where k: "k < length (drop 1 cs)" "drop 1 cs ! k = b"
      by (auto simp: in_set_conv_nth)
    then have "1 \<le> Suc k \<and> Suc k < length cs \<and> cs ! Suc k = b" by auto
    with False show ?thesis by blast
  qed
  then have "cur_index v cs = 0" by (simp add: cur_index_def first_below_none)
  moreover from False have "boundary_index v cs = 0"
    unfolding boundary_index_def by (simp only: if_False)
  ultimately show ?thesis by simp
qed

lemma boundary_index_beyond:
  assumes "sorted cs" and "last cs \<le> v"
  shows "boundary_index v cs = 0"
proof (cases "cs = []")
  case True
  then show ?thesis by (simp add: boundary_index_def)
next
  case False
  with assms show ?thesis by (simp add: cur_index_boundary [symmetric] cur_index_beyond)
qed

lemma first_below_found: "\<exists>b \<in> set bs. v < b \<Longrightarrow> 0 < i \<Longrightarrow> first_below v bs i \<noteq> 0"
  by (induction bs arbitrary: i) auto

lemma cur_index_mono:
  assumes "v1 \<le> v2" and "v2 < last cs"
  shows "cur_index v1 cs \<le> cur_index v2 cs"
proof (cases "drop 1 cs")
  case Nil
  then show ?thesis by (simp add: cur_index_def)
next
  case (Cons b bs)
  then have "last cs = last (drop 1 cs)" by (cases cs) auto
  moreover have "last (drop 1 cs) \<in> set (drop 1 cs)" using Cons by simp
  ultimately have "\<exists>b \<in> set (drop 1 cs). v2 < b" using assms(2) by auto
  then have "first_below v2 (drop 1 cs) 1 \<noteq> 0" by (rule first_below_found) simp
  with assms(1) show ?thesis unfolding cur_index_def by (rule first_below_mono)
qed

lemma row_loop_eq:
  "0 < i \<Longrightarrow>
   row_loop y bs i st =
     (int (first_below y bs i),
      if first_below y bs i = 0 then st else enter_row (int (first_below y bs i)) st)"
  by (induction bs arbitrary: i) simp_all

lemma col_loop_eq:
  "0 < i \<Longrightarrow>
   col_loop x bs i st =
     (int (first_below x bs i),
      if first_below x bs i = 0 then st else enter_col (int (first_below x bs i)) st)"
  by (induction bs arbitrary: i) simp_all

lemma table_cell_eq:
  assumes "ys = y_coords (tables_joints pg) ! n" and "xs = x_coords (tables_joints pg) ! n"
    and "y = pt_y (center (word_box w))" and "x = pt_x (center (word_box w))"
  shows "table_cell pg w (int n) st =
     (int (boundary_index y ys), int (boundary_index x xs),
      (let st1 = (if boundary_index y ys = 0 then st
                  else enter_row (int (boundary_index y ys)) st)
       in if boundary_index x xs = 0 then st1
          else enter_col (int (boundary_index x xs)) st1))"
  unfolding table_cell_def assms cur_index_boundary [symmetric] cur_index_def
  by (simp add: row_loop_eq col_loop_eq Let_def)

lemma table_word_closers:
  "c \<noteq> - 1 \<Longrightarrow> close_para w c (close_line w c st) = st"
  by (simp add: close_para_def close_line_def)

lemma process_word_in_table:
  assumes "find_table_idx (center (word_box w)) (tables_joints pg) = int n"
  shows "process_word pg w st =
     close_block w
       ((emit (table_span w)
          (snd (snd (table_cell pg w (int n)
             (open_table (int n) (table_change (int n) (open_block pg w st)))))))
        \<lparr>prev_table_idx := int n\<rparr>)"
proof -
  have ne: "int n \<noteq> - 1" by simp
  show ?thesis
    unfolding process_word_def Let_def assms table_word_closers [OF ne]
    by (simp add: table_word_def split: prod.splits)
qed

text \<open>
  C3. For a word whose centre resolves to table \<open>n\<close>, the serializer leaves in \<open>cur_row\<close> the
  smallest index \<open>i \<ge> 1\<close> of the table's sorted y boundaries with \<open>y < ys ! i\<close>, and in
  \<open>cur_col\<close> the like index of the x boundaries for \<open>x\<close>. When the centre is at or beyond
  the last boundary of an axis the index of that axis is 0 and the loop of that axis
  leaves the cursor as it was: no row (no cell) is opened. This is the cell lookup that
  the processing of the word runs, between opening the table and writing the span.
\<close>

theorem cell_index_smallest_boundary:
  assumes "find_table_idx (center (word_box w)) (tables_joints pg) = int n"
    and "ys = y_coords (tables_joints pg) ! n" and "xs = x_coords (tables_joints pg) ! n"
    and "y = pt_y (center (word_box w))" and "x = pt_x (center (word_box w))"
  shows "sorted ys \<and> sorted xs \<and>
    table_cell pg w (int n) st =
      (int (boundary_index y ys), int (boundary_index x xs),
       (let st1 = (if boundary_index y ys = 0 then st
                   else enter_row (int (boundary_index y ys)) st)
        in if boundary_index x xs = 0 then st1
           else enter_col (int (boundary_index x xs)) st1)) \<and>
    (last ys \<le> y \<longrightarrow> boundary_index y ys = 0) \<and>
    (last xs \<le> x \<longrightarrow> boundary_index x xs = 0) \<and>
    process_word pg w st =
      close_block w
        ((emit (table_span w)
           (snd (snd (table_cell pg w (int n)
              (open_table (int n) (table_change (int n) (open_block pg w st)))))))
         \<lparr>prev_table_idx := int n\<rparr>)"
proof -
  from assms(1) have n: "n < length (tables_joints pg)" by (rule find_table_idx_bound)
  have sy: "sorted ys" and sx: "sorted xs"
    using n assms(2,3) by (simp_all add: sorted_y_coords sorted_x_coords)
  show ?thesis
    using sy sx table_cell_eq [OF assms(2-5), of st] process_word_in_table [OF assms(1), of st]
      boundary_index_beyond [of ys y] boundary_index_beyond [of xs x]
    by blast
qed

theorem cell_index_smallest_boundary_witness:
  "find_table_idx (center (word_box (word_at ''A'' (box 20 45 40 55))))
     (tables_joints (page_of one_table)) = int 0 \<and>
   center (word_box (word_at ''A'' (box 20 45 40 55))) = Point 30 50 \<and>
   y_coords (tables_joints (page_of one_table)) ! 0 = [10, 30, 50] \<and>
   x_coords (tables_joints (page_of one_table)) ! 0 = [10, 60, 110] \<and>
   boundary_index 50 [10, 30, 50] = 0 \<and>
   boundary_index 30 [10, 60, 110] = 1 \<and>
   table_cell (page_of one_table) (word_at ''A'' (box 20 45 40 55)) (int 0) (init_cursor [])
     = (0, 1, enter_col 1 (init_cursor []))"
proof -
  let ?w = "word_at ''A'' (box 20 45 40 55)"
  let ?pg = "page_of one_table"
  have a: "find_table_idx (center (word_box ?w)) (tables_joints ?pg) = int 0" by code_simp
  have c: "center (word_box ?w) = Point 30 50" by code_simp
  have ys: "y_coords (tables_joints ?pg) ! 0 = [10, 30, 50]" by code_simp
  have xs: "x_coords (tables_joints ?pg) ! 0 = [10, 60, 110]" by code_simp
  have t: "table_cell ?pg ?w (int 0) (init_cursor []) = (0, 1, enter_col 1 (init_cursor []))"
    by (simp add: table_cell_def ys xs c)
  note th = cell_index_smallest_boundary [OF a refl refl refl refl, of "init_cursor []"]
  from th have "table_cell ?pg ?w (int 0) (init_cursor []) =
      (int (boundary_index (pt_y (center (word_box ?w))) (y_coords (tables_joints ?pg) ! 0)),
       int (boundary_index (pt_x (center (word_box ?w))) (x_coords (tables_joints ?pg) ! 0)),
       (let st1 = (if boundary_index (pt_y (center (word_box ?w)))
                        (y_coords (tables_joints ?pg) ! 0) = 0 then init_cursor []
                   else enter_row (int (boundary_index (pt_y (center (word_box ?w)))
                        (y_coords (tables_joints ?pg) ! 0))) (init_cursor []))
        in if boundary_index (pt_x (center (word_box ?w))) (x_coords (tables_joints ?pg) ! 0) = 0
           then st1
           else enter_col (int (boundary_index (pt_x (center (word_box ?w)))
                        (x_coords (tables_joints ?pg) ! 0))) st1))"
    by blast
  then have b: "boundary_index 50 [10, 30, 50] = 0 \<and> boundary_index 30 [10, 60, 110] = 1"
    unfolding t ys xs c by simp
  show ?thesis using a c ys xs b t by simp
qed

text \<open>
  C8, as amended. Two words whose centres resolve to the same table: when the centre of
  the second is not above that of the first and is strictly above the last y boundary of
  the table, the row index the serializer finds for the second is not smaller than the
  one it finds for the first; when the centre of the second is at or beyond the last y
  boundary, its row index is 0, whatever the first word was. Likewise for the column
  index, the x coordinates and the last x boundary. These are the indices of the cell
  lookup that the processing of a word runs.
\<close>

theorem cell_index_monotone:
  assumes "find_table_idx (center (word_box w1)) (tables_joints pg) = int n"
    and "find_table_idx (center (word_box w2)) (tables_joints pg) = int n"
    and "ys = y_coords (tables_joints pg) ! n" and "xs = x_coords (tables_joints pg) ! n"
  shows
   "(pt_y (center (word_box w1)) \<le> pt_y (center (word_box w2)) \<and>
     pt_y (center (word_box w2)) < last ys \<longrightarrow>
       fst (table_cell pg w1 (int n) s1) \<le> fst (table_cell pg w2 (int n) s2)) \<and>
    (last ys \<le> pt_y (center (word_box w2)) \<longrightarrow> fst (table_cell pg w2 (int n) s2) = 0) \<and>
    (pt_x (center (word_box w1)) \<le> pt_x (center (word_box w2)) \<and>
     pt_x (center (word_box w2)) < last xs \<longrightarrow>
       fst (snd (table_cell pg w1 (int n) s1)) \<le> fst (snd (table_cell pg w2 (int n) s2))) \<and>
    (last xs \<le> pt_x (center (word_box w2)) \<longrightarrow> fst (snd (table_cell pg w2 (int n) s2)) = 0) \<and>
    process_word pg w2 st =
      close_block w2
        ((emit (table_span w2)
           (snd (snd (table_cell pg w2 (int n)
              (open_table (int n) (table_change (int n) (open_block pg w2 st)))))))
         \<lparr>prev_table_idx := int n\<rparr>)"
proof -
  from assms(1) have n: "n < length (tables_joints pg)" by (rule find_table_idx_bound)
  have sy: "sorted ys" and sx: "sorted xs"
    using n assms(3,4) by (simp_all add: sorted_y_coords sorted_x_coords)
  have r: "fst (table_cell pg w (int n) s) = int (cur_index (pt_y (center (word_box w))) ys)"
   and c: "fst (snd (table_cell pg w (int n) s)) = int (cur_index (pt_x (center (word_box w))) xs)"
    for w s
    by (simp_all add: table_cell_eq [OF assms(3,4) refl refl] cur_index_boundary)
  show ?thesis
    unfolding r c
    using cur_index_mono [of "pt_y (center (word_box w1))" "pt_y (center (word_box w2))" ys]
      cur_index_mono [of "pt_x (center (word_box w1))" "pt_x (center (word_box w2))" xs]
      boundary_index_beyond [OF sy, of "pt_y (center (word_box w2))"]
      boundary_index_beyond [OF sx, of "pt_x (center (word_box w2))"]
      process_word_in_table [OF assms(2), of st]
    by (simp add: cur_index_boundary)
qed

theorem cell_index_monotone_witness:
  "find_table_idx (center (word_box (word_at ''A'' (box 20 15 40 25))))
     (tables_joints (page_of one_table)) = int 0 \<and>
   find_table_idx (center (word_box (word_at ''C'' (box 20 35 40 45))))
     (tables_joints (page_of one_table)) = int 0 \<and>
   pt_y (center (word_box (word_at ''A'' (box 20 15 40 25)))) = 20 \<and>
   pt_y (center (word_box (word_at ''C'' (box 20 35 40 45)))) = 40 \<and>
   last (y_coords (tables_joints (page_of one_table)) ! 0) = 50 \<and>
   fst (table_cell (page_of one_table) (word_at ''A'' (box 20 15 40 25)) (int 0) (init_cursor []))
     \<le> fst (table_cell (page_of one_table) (word_at ''C'' (box 20 35 40 45)) (int 0)
           (init_cursor [])) \<and>
   fst (table_cell (page_of one_table) (word_at ''A'' (box 20 15 40 25)) (int 0) (init_cursor []))
     = 1 \<and>
   fst (table_cell (page_of one_table) (word_at ''C'' (box 20 35 40 45)) (int 0) (init_cursor []))
     = 2"
proof -
  let ?a = "word_at ''A'' (box 20 15 40 25)"
  let ?c = "word_at ''C'' (box 20 35 40 45)"
  let ?pg = "page_of one_table"
  have a: "find_table_idx (center (word_box ?a)) (tables_joints ?pg) = int 0" by code_simp
  have c: "find_table_idx (center (word_box ?c)) (tables_joints ?pg) = int 0" by code_simp
  have ya: "pt_y (center (word_box ?a)) = 20" by code_simp
  have yc: "pt_y (center (word_box ?c)) = 40" by code_simp
  have ys: "y_coords (tables_joints ?pg) ! 0 = [10, 30, 50]" by code_simp
  have xs: "x_coords (tables_joints ?pg) ! 0 = [10, 60, 110]" by code_simp
  have l: "last (y_coords (tables_joints ?pg) ! 0) = 50" by (simp add: ys)
  note th = cell_index_monotone [OF a c refl refl, of "init_cursor []" "init_cursor []"]
  from th ya yc l
  have m: "fst (table_cell ?pg ?a (int 0) (init_cursor []))
     \<le> fst (table_cell ?pg ?c (int 0) (init_cursor []))" by simp
  have ra: "fst (table_cell ?pg ?a (int 0) (init_cursor [])) = 1"
    by (simp add: table_cell_def ys xs ya split: prod.splits)
  have rc: "fst (table_cell ?pg ?c (int 0) (init_cursor [])) = 2"
    by (simp add: table_cell_def ys xs yc split: prod.splits)
  show ?thesis by (intro conjI a c ya yc l m ra rc)
qed

text \<open>
  C8 as stated fails. On the page with one table the serializer processes a word centred
  at (30, 20) and then a word centred lower, at (30, 50); both resolve to the table. The
  first gets row 1; the second, on the last y boundary, gets row 0. The same happens to
  the column of a word centred on the last x boundary, to the right of the first in the
  same row.
\<close>

theorem cell_index_monotone_counterexample:
  "center (word_box (word_at ''A'' (box 20 15 40 25))) = Point 30 20 \<and>
   center (word_box (word_at ''B'' (box 20 45 40 55))) = Point 30 50 \<and>
   center (word_box (word_at ''D'' (box 100 15 120 25))) = Point 110 20 \<and>
   find_table_idx (Point 30 20) one_table = 0 \<and>
   find_table_idx (Point 30 50) one_table = 0 \<and>
   find_table_idx (Point 110 20) one_table = 0 \<and>
   fst (table_cell (page_of one_table) (word_at ''A'' (box 20 15 40 25)) 0
          (open_table 0 (table_change 0 (init_cursor [])))) = 1 \<and>
   fst (table_cell (page_of one_table) (word_at ''B'' (box 20 45 40 55)) 0
          (process_word (page_of one_table) (word_at ''A'' (box 20 15 40 25)) (init_cursor [])))
     = 0 \<and>
   fst (snd (table_cell (page_of one_table) (word_at ''A'' (box 20 15 40 25)) 0
          (open_table 0 (table_change 0 (init_cursor []))))) = 1 \<and>
   fst (snd (table_cell (page_of one_table) (word_at ''D'' (box 100 15 120 25)) 0
          (process_word (page_of one_table) (word_at ''A'' (box 20 15 40 25)) (init_cursor []))))
     = 0"
  by code_simp

section \<open>Properties of table detection\<close>

lemma contour_loop_eq:
  "contour_loop cv src cs acc =
     acc @ map (region_of_polygon cv src) (filter (accepted_polygon cv src) cs)"
  by (induction cs arbitrary: acc)
    (simp_all add: Let_def accepted_polygon_def region_of_polygon_def)

lemma same_rectangle_same_detector:
  assumes "\<forall>c \<in> set cs. boundingRect (approxPolyDP cv c) = boundingRect c"
  shows "map (region_of_polygon cv src) (filter (accepted_polygon cv src) cs) =
         map (region_of cv src) (filter (accepted cv src) cs)"
proof -
  have "filter (accepted_polygon cv src) cs = filter (accepted cv src) cs"
    using assms by (intro filter_cong) (simp_all add: accepted_polygon_def accepted_def)
  moreover have "map (region_of_polygon cv src) (filter (accepted cv src) cs) =
      map (region_of cv src) (filter (accepted cv src) cs)"
    using assms by (intro map_cong) (simp_all add: region_of_polygon_def region_of_def)
  ultimately show ?thesis by simp
qed

text \<open>
  C7, as amended. The detector rejects a candidate contour whose area is below 50, and
  rejects it when the intersection mask, cropped to the bounding rectangle of the polygon
  that approximates the contour, yields 4 or fewer joint contours; for every other
  candidate it records these joint contours with the corner of that rectangle added to
  every point. The list returned holds exactly the candidates accepted in this way, in
  discovery order. Where the approximating polygon of every candidate has the bounding
  rectangle of the candidate itself, this is acceptance and translation by the
  candidate's own bounding rectangle.
\<close>

theorem detector_keeps_accepted_candidates:
  "ExtractTableJoints cv f =
     map_option
       (\<lambda>contours. map (region_of_polygon cv (imread cv f))
          (filter (accepted_polygon cv (imread cv f)) contours))
       (line_contours cv (imread cv f)) \<and>
   (\<forall>contours.
      line_contours cv (imread cv f) = Some contours \<and>
      (\<forall>c \<in> set contours. boundingRect (approxPolyDP cv c) = boundingRect c) \<longrightarrow>
      ExtractTableJoints cv f =
        Some (map (region_of cv (imread cv f)) (filter (accepted cv (imread cv f)) contours)))"
proof (intro conjI allI impI)
  show eq: "ExtractTableJoints cv f =
     map_option
       (\<lambda>contours. map (region_of_polygon cv (imread cv f))
          (filter (accepted_polygon cv (imread cv f)) contours))
       (line_contours cv (imread cv f))"
    by (cases "line_contours cv (imread cv f)")
      (simp_all add: ExtractTableJoints_def contour_loop_eq Let_def)
  fix contours
  assume "line_contours cv (imread cv f) = Some contours \<and>
      (\<forall>c \<in> set contours. boundingRect (approxPolyDP cv c) = boundingRect c)"
  then show "ExtractTableJoints cv f =
        Some (map (region_of cv (imread cv f)) (filter (accepted cv (imread cv f)) contours))"
    using eq by (simp add: same_rectangle_same_detector)
qed

theorem detector_keeps_accepted_candidates_witness:
  "line_contours cv_one_table (imread cv_one_table ''p.png'') = Some [outline] \<and>
   boundingRect (approxPolyDP cv_one_table outline) = boundingRect outline \<and>
   accepted cv_one_table (Image ''p.png'') outline \<and>
   region_of cv_one_table (Image ''p.png'') outline = hd one_table \<and>
   ExtractTableJoints cv_one_table ''p.png'' = Some one_table \<and>
   ExtractTableJoints (cv_one_table\<lparr>contourArea := (\<lambda>c. 49.5)\<rparr>) ''p.png'' = Some [] \<and>
   ExtractTableJoints (cv_one_table\<lparr>roi_contours := (\<lambda>f r. take 4 grid_joints)\<rparr>) ''p.png''
     = Some []"
proof -
  have a: "accepted cv_one_table (Image ''p.png'') outline"
    by (simp add: accepted_def cv_one_table_def grid_joints_def)
  have r: "region_of cv_one_table (Image ''p.png'') outline = hd one_table"
    by (simp add: region_of_def cv_one_table_def grid_joints_def outline_def one_table_def
        boundingRect_def translate_def)
  have p: "line_contours cv_one_table (imread cv_one_table ''p.png'') = Some [outline]"
    and i: "imread cv_one_table ''p.png'' = Image ''p.png''"
    and b: "boundingRect (approxPolyDP cv_one_table outline) = boundingRect outline"
    by (simp_all add: cv_one_table_def)
  have bb: "\<forall>c \<in> set [outline]. boundingRect (approxPolyDP cv_one_table c) = boundingRect c"
    using b by simp
  from detector_keeps_accepted_candidates [of cv_one_table "''p.png''"] p bb
  have "ExtractTableJoints cv_one_table ''p.png'' =
     Some (map (region_of cv_one_table (imread cv_one_table ''p.png''))
        (filter (accepted cv_one_table (imread cv_one_table ''p.png'')) [outline]))"
    by blast
  then have e: "ExtractTableJoints cv_one_table ''p.png'' = Some one_table"
    using a r by (simp add: i one_table_def)
  have s: "ExtractTableJoints (cv_one_table\<lparr>contourArea := (\<lambda>c. 49.5)\<rparr>) ''p.png'' = Some []"
    by (simp add: ExtractTableJoints_def cv_one_table_def)
  have t: "ExtractTableJoints (cv_one_table\<lparr>roi_contours := (\<lambda>f r. take 4 grid_joints)\<rparr>)
      ''p.png'' = Some []"
    by (simp add: ExtractTableJoints_def cv_one_table_def grid_joints_def)
  show ?thesis by (intro conjI p b a r e s t)
qed

text \<open>
  C7 as stated fails where the approximation changes the rectangle. On the page with the
  sagging bottom rule the candidate has area 4000 and its own bounding rectangle, rows 10
  to 52, holds all five joints, so by the claim it is accepted and recorded. The source
  crops to the rectangle of the approximating polygon, rows 10 to 50, finds four joints
  and rejects the candidate: nothing is returned.
\<close>

theorem detector_keeps_accepted_candidates_counterexample:
  "line_contours cv_sagging (imread cv_sagging ''p.png'') = Some [sagging_outline] \<and>
   \<not> contourArea cv_sagging sagging_outline < 50 \<and>
   boundingRect sagging_outline = Rect 10 10 101 43 \<and>
   boundingRect (approxPolyDP cv_sagging sagging_outline) = Rect 10 10 101 41 \<and>
   length (roi_contours cv_sagging (imread cv_sagging ''p.png'') (Rect 10 10 101 43)) = 5 \<and>
   length (roi_contours cv_sagging (imread cv_sagging ''p.png'') (Rect 10 10 101 41)) = 4 \<and>
   accepted cv_sagging (imread cv_sagging ''p.png'') sagging_outline \<and>
   map (region_of cv_sagging (imread cv_sagging ''p.png''))
     (filter (accepted cv_sagging (imread cv_sagging ''p.png'')) [sagging_outline])
     = [sagging_joints] \<and>
   ExtractTableJoints cv_sagging ''p.png'' = Some []"
proof -
  have b1: "boundingRect sagging_outline = Rect 10 10 101 43"
    by (simp add: boundingRect_def sagging_outline_def)
  have b2: "boundingRect (approxPolyDP cv_sagging sagging_outline) = Rect 10 10 101 41"
    by (simp add: boundingRect_def cv_sagging_def cv_one_table_def outline_def)
  have r1: "roi_contours cv_sagging src (Rect 10 10 101 43) =
      [[Point 0 0], [Point 100 0], [Point 0 40], [Point 100 40], [Point 50 42]]" for src
    by (simp add: cv_sagging_def cv_one_table_def crop_joints_def sagging_joints_def contains_def)
  have r2: "roi_contours cv_sagging src (Rect 10 10 101 41) =
      [[Point 0 0], [Point 100 0], [Point 0 40], [Point 100 40]]" for src
    by (simp add: cv_sagging_def cv_one_table_def crop_joints_def sagging_joints_def contains_def)
  have a: "contourArea cv_sagging c = 4000" for c
    by (simp add: cv_sagging_def cv_one_table_def)
  have l: "line_contours cv_sagging src = Some [sagging_outline]" for src
    by (simp add: cv_sagging_def cv_one_table_def)
  have acc: "accepted cv_sagging src sagging_outline" for src
    by (simp add: accepted_def a b1 r1)
  have reg: "region_of cv_sagging src sagging_outline = sagging_joints" for src
    by (simp add: region_of_def b1 r1 translate_def sagging_joints_def)
  have e: "ExtractTableJoints cv_sagging ''p.png'' = Some []"
    by (simp add: ExtractTableJoints_def l a b2 r2)
  show ?thesis
    by (intro conjI l b1 b2 e acc) (simp_all add: a r1 r2 acc reg)
qed

section \<open>The span of a word\<close>

lemma emit_str [simp]: "abbyy_str (emit s st) = abbyy_str st @ s"
  by (simp add: emit_def)















section \<open>The markup of a page with a table\<close>

text \<open>
  C1 does not hold of the serializer. On the page with one table and a single word, which
  lies inside the table and is the whole of its block, the tags written are, in order:
  the page and the block opened; \<open></table>\<close> and \<open></tbody>\<close> although nothing of the kind is
  open, and in that order; table, tbody, tr and td opened; the word's span; the block and
  the page closed while td, tr, tbody and table are still open and are never closed. The
  validator rejects the text.
\<close>

theorem table_markup_not_balanced:
  "markup_tags (GetAbbyyText cv_one_table page_word_in_table 0) =
     [Open ''div'', Open ''div'', Close ''table'', Close ''tbody'', Open ''table'',
      Open ''tbody'', Open ''tr'', Open ''td'', Open ''span'', Close ''span'',
      Close ''div'', Close ''div''] \<and>
   \<not> balanced (markup_tags (GetAbbyyText cv_one_table page_word_in_table 0)) [] \<and>
   markup_tags (GetAbbyyText cv_one_table page_hebrew_in_table 0) =
     [Open ''div'', Open ''div'', Open ''p'', Open ''span'', Open ''span'', Close ''span'',
      Close ''table'', Close ''tbody'', Open ''table'', Open ''tbody'', Open ''tr'',
      Open ''td'', Open ''span'', Close ''span'', Close ''div'', Close ''div''] \<and>
   balanced (markup_tags (GetAbbyyText cv_one_table page_hebrew_in_flow 0)) []"
  by code_simp

theorem table_markup_not_balanced_witness:
  "tesseract_present page_word_in_table \<and> page_res_present page_word_in_table \<and>
   input_file page_word_in_table = Some ''p.png'' \<and>
   \<not> balanced (markup_tags (GetAbbyyText cv_one_table page_word_in_table 0)) []"
  using table_markup_not_balanced by (simp add: page_word_in_table_def api_of_def)

section \<open>A page whose image cannot be read\<close>

text \<open>
  What the function does have: the result for an unreadable file is that of the loop on
  whatever contours the library reports for the empty matrix, and when there are no
  regions every word goes through the flow branch.
\<close>

lemma unreadable_image_not_special:
  "imread cv f = Empty_Mat \<Longrightarrow>
   ExtractTableJoints cv f =
     map_option (\<lambda>contours. contour_loop cv Empty_Mat contours []) (line_contours cv Empty_Mat)"
  by (cases "line_contours cv Empty_Mat") (simp_all add: ExtractTableJoints_def)

lemma no_tables_no_membership: "find_table_idx pt [] = - 1"
  by (simp add: find_table_idx_def)

lemma no_tables_flow_branch:
  assumes "tables_joints pg = []" and "prev_table_idx st = - 1"
  shows "process_word pg w st =
     close_block w (close_para w (- 1) (close_line w (- 1)
       ((flow_word pg w (open_block pg w st))\<lparr>prev_table_idx := - 1\<rparr>)))"
proof -
  have "prev_table_idx (open_block pg w st) = - 1"
    using assms(2) by (simp add: open_block_def emit_def)
  then have "table_change (- 1) (open_block pg w st) = open_block pg w st"
    by (simp add: table_change_def)
  then show ?thesis
    by (simp add: process_word_def assms(1) no_tables_no_membership Let_def)
qed

text \<open>
  C2 does not hold of \<^verbatim>\<open>ExtractTableJoints\<close>: after a failed load it writes a message and
  goes on with the empty matrix; no path of its own returns an empty list for it. When
  the image library raises on the empty matrix, the exception leaves
  \<^verbatim>\<open>ExtractTableJoints\<close> and \<^verbatim>\<open>GetAbbyyText\<close>: the page is not serialized at all.
\<close>

theorem unreadable_image_aborts_page:
  "imread cv_unreadable ''missing.png'' = Empty_Mat \<and>
   ExtractTableJoints cv_unreadable ''missing.png'' = None \<and>
   GetAbbyyText cv_unreadable (page_word_in_table\<lparr>input_file := Some ''missing.png''\<rparr>) 0
     = Inl Cv_exception"
  by code_simp

theorem unreadable_image_aborts_page_witness:
  "tesseract_present (page_word_in_table\<lparr>input_file := Some ''missing.png''\<rparr>) \<and>
   page_res_present (page_word_in_table\<lparr>input_file := Some ''missing.png''\<rparr>) \<and>
   line_contours cv_unreadable (imread cv_unreadable ''missing.png'') = None \<and>
   GetAbbyyText cv_unreadable (page_word_in_table\<lparr>input_file := Some ''missing.png''\<rparr>) 0
     = Inl Cv_exception"
  using unreadable_image_aborts_page
  by (simp add: page_word_in_table_def api_of_def cv_unreadable_def cv_one_table_def)

section \<open>A page without an input name\<close>

lemma row_loop_prefix: "prefix (abbyy_str st) (abbyy_str (snd (row_loop y bs i st)))"
  by (induction bs arbitrary: i) (simp_all add: enter_row_def Let_def)

lemma col_loop_prefix: "prefix (abbyy_str st) (abbyy_str (snd (col_loop x bs i st)))"
  by (induction bs arbitrary: i) (simp_all add: enter_col_def Let_def)

lemma table_cell_prefix:
  "prefix (abbyy_str st) (abbyy_str (snd (snd (table_cell pg w t st))))"
proof -
  obtain r s1 where r: "row_loop (pt_y (center (word_box w)))
      (drop 1 (y_coords (tables_joints pg) ! nat t)) 1 st = (r, s1)"
    by (cases "row_loop (pt_y (center (word_box w)))
      (drop 1 (y_coords (tables_joints pg) ! nat t)) 1 st")
  obtain c s2 where c: "col_loop (pt_x (center (word_box w)))
      (drop 1 (x_coords (tables_joints pg) ! nat t)) 1 s1 = (c, s2)"
    by (cases "col_loop (pt_x (center (word_box w)))
      (drop 1 (x_coords (tables_joints pg) ! nat t)) 1 s1")
  have "prefix (abbyy_str st) (abbyy_str s1)"
    using row_loop_prefix [of st "pt_y (center (word_box w))"
        "drop 1 (y_coords (tables_joints pg) ! nat t)" 1] r by simp
  moreover have "prefix (abbyy_str s1) (abbyy_str s2)"
    using col_loop_prefix [of s1 "pt_x (center (word_box w))"
        "drop 1 (x_coords (tables_joints pg) ! nat t)" 1] c by simp
  ultimately have "prefix (abbyy_str st) (abbyy_str s2)" by (rule prefix_order.trans)
  then show ?thesis unfolding table_cell_def Let_def r prod.case c snd_conv .
qed

lemma open_block_prefix: "prefix (abbyy_str st) (abbyy_str (open_block pg w st))"
  by (simp add: open_block_def)

lemma table_change_prefix: "prefix (abbyy_str st) (abbyy_str (table_change t st))"
  by (simp add: table_change_def)

lemma open_table_prefix: "prefix (abbyy_str st) (abbyy_str (open_table t st))"
  by (simp add: open_table_def)

lemma table_word_prefix: "prefix (abbyy_str st) (abbyy_str (table_word pg w t st))"
proof -
  have "prefix (abbyy_str st) (abbyy_str (open_table t st))" by (rule open_table_prefix)
  also have "prefix \<dots> (abbyy_str (snd (snd (table_cell pg w t (open_table t st)))))"
    by (rule table_cell_prefix)
  also have "prefix \<dots> (abbyy_str (table_word pg w t st))"
    by (simp add: table_word_def split: prod.splits)
  finally show ?thesis .
qed

lemma flow_word_prefix: "prefix (abbyy_str st) (abbyy_str (flow_word pg w st))"
  by (simp add: flow_word_def open_para_def open_line_def Let_def)

lemma closers_prefix:
  "prefix (abbyy_str st)
     (abbyy_str (close_block w (close_para w t (close_line w t (st\<lparr>prev_table_idx := t\<rparr>)))))"
  by (simp add: close_block_def close_para_def close_line_def)

lemma process_word_prefix: "prefix (abbyy_str st) (abbyy_str (process_word pg w st))"
proof -
  define t where "t = find_table_idx (center (word_box w)) (tables_joints pg)"
  define s2 where "s2 = table_change t (open_block pg w st)"
  define s3 where "s3 = (if t \<noteq> - 1 then table_word pg w t s2 else flow_word pg w s2)"
  have pw: "process_word pg w st =
      close_block w (close_para w t (close_line w t (s3\<lparr>prev_table_idx := t\<rparr>)))"
    by (simp add: process_word_def Let_def t_def s2_def s3_def)
  have "prefix (abbyy_str st) (abbyy_str (open_block pg w st))" by (rule open_block_prefix)
  also have "prefix \<dots> (abbyy_str s2)" unfolding s2_def by (rule table_change_prefix)
  also have "prefix \<dots> (abbyy_str s3)"
    unfolding s3_def by (simp add: table_word_prefix flow_word_prefix)
  also have "prefix \<dots>
      (abbyy_str (close_block w (close_para w t (close_line w t (s3\<lparr>prev_table_idx := t\<rparr>)))))"
    by (rule closers_prefix)
  finally show ?thesis unfolding pw .
qed

lemma word_loop_prefix: "prefix (abbyy_str st) (abbyy_str (word_loop pg ws st))"
proof (induction ws arbitrary: st)
  case Nil
  then show ?case by simp
next
  case (Cons w ws)
  have "prefix (abbyy_str st) (abbyy_str (process_word pg w st))"
    by (rule process_word_prefix)
  also have "prefix \<dots> (abbyy_str (word_loop pg ws (process_word pg w st)))" by (rule Cons)
  finally show ?case using Cons [of st] by simp
qed

lemma closing_differs: "a @ b @ c @ d @ ''  </div>\<newline>'' \<noteq> e @ ''unknown''"
proof
  assume "a @ b @ c @ d @ ''  </div>\<newline>'' = e @ ''unknown''"
  then have "last (a @ b @ c @ d @ ''  </div>\<newline>'') = last (e @ ''unknown'')"
    by (rule arg_cong)
  then show False by simp
qed

lemma GetAbbyyText_named:
  assumes "tesseract_present api"
    and "page_res_present api \<or> 0 \<le> recognize_result api"
    and "(if input_file api = None then SetInputName cv None (input_file api)
          else input_file api) = Some nm"
  shows "GetAbbyyText cv api n =
     (case ExtractTableJoints cv (HOcrEscape cv nm) of
        None \<Rightarrow> Inl Cv_exception
      | Some tj \<Rightarrow>
          Inr (abbyy_str
                 (word_loop
                    \<lparr>page_id = n + 1, font_info = abbyy_font_info api, tables_joints = tj,
                     escape = HOcrEscape cv\<rparr>
                    (words api)
                    (init_cursor (page_open n @ HOcrEscape cv nm @ page_rect api n)))
               @ ''  </div>\<newline>''))"
proof -
  have guard: "\<not> (\<not> tesseract_present api \<or> (\<not> page_res_present api \<and> recognize_result api < 0))"
    using assms(1,2) by auto
  show ?thesis
    unfolding GetAbbyyText_def Let_def assms(3) if_not_P [OF guard] option.case ..
qed

text \<open>
  C10, as amended. With an engine and a recognition result, when \<^verbatim>\<open>input_file_\<close> is null and
  the call \<^verbatim>\<open>SetInputName(nullptr)\<close> that \<^verbatim>\<open>GetAbbyyText\<close> makes first stores a name (the
  empty one, for the function of \<^verbatim>\<open>baseapi.cpp\<close>), the result is that of the same call with
  this name as input name, and never the opening of the page element with the file name
  \<open>unknown\<close>: table detection runs on the stored name; when it raises, no text is returned;
  otherwise the text is the complete page element, the opening with the stored name as
  file name and the page rectangle, what the words add, and the closing tag.
\<close>

theorem missing_input_name:
  assumes "tesseract_present api"
    and "page_res_present api \<or> 0 \<le> recognize_result api"
    and "input_file api = None"
    and "SetInputName cv None None = Some nm"
  shows "GetAbbyyText cv api n = GetAbbyyText cv (api\<lparr>input_file := Some nm\<rparr>) n \<and>
         GetAbbyyText cv api n \<noteq> Inr (page_open n @ ''unknown'') \<and>
         (ExtractTableJoints cv (HOcrEscape cv nm) = None \<longrightarrow>
            GetAbbyyText cv api n = Inl Cv_exception) \<and>
         (ExtractTableJoints cv (HOcrEscape cv nm) \<noteq> None \<longrightarrow>
            (\<exists>body. GetAbbyyText cv api n =
               Inr (page_open n @ HOcrEscape cv nm @ page_rect api n @ body @
                    ''  </div>\<newline>'')))"
proof -
  have stored: "(if input_file api = None then SetInputName cv None (input_file api)
      else input_file api) = Some nm"
    using assms(3,4) by simp
  note run = GetAbbyyText_named [OF assms(1,2) stored, of n]
  have p: "page_rect (api\<lparr>input_file := Some nm\<rparr>) n = page_rect api n"
    by (simp add: page_rect_def)
  have "GetAbbyyText cv (api\<lparr>input_file := Some nm\<rparr>) n =
     (case ExtractTableJoints cv (HOcrEscape cv nm) of
        None \<Rightarrow> Inl Cv_exception
      | Some tj \<Rightarrow>
          Inr (abbyy_str
                 (word_loop
                    \<lparr>page_id = n + 1, font_info = abbyy_font_info (api\<lparr>input_file := Some nm\<rparr>),
                     tables_joints = tj, escape = HOcrEscape cv\<rparr>
                    (words (api\<lparr>input_file := Some nm\<rparr>))
                    (init_cursor (page_open n @ HOcrEscape cv nm @
                       page_rect (api\<lparr>input_file := Some nm\<rparr>) n)))
               @ ''  </div>\<newline>''))"
    using assms(1,2) by (intro GetAbbyyText_named) simp_all
  then have other: "GetAbbyyText cv (api\<lparr>input_file := Some nm\<rparr>) n =
     (case ExtractTableJoints cv (HOcrEscape cv nm) of
        None \<Rightarrow> Inl Cv_exception
      | Some tj \<Rightarrow>
          Inr (abbyy_str
                 (word_loop
                    \<lparr>page_id = n + 1, font_info = abbyy_font_info api, tables_joints = tj,
                     escape = HOcrEscape cv\<rparr>
                    (words api)
                    (init_cursor (page_open n @ HOcrEscape cv nm @ page_rect api n)))
               @ ''  </div>\<newline>''))"
    unfolding p by (cases "ExtractTableJoints cv (HOcrEscape cv nm)") simp_all
  have same: "GetAbbyyText cv api n = GetAbbyyText cv (api\<lparr>input_file := Some nm\<rparr>) n"
    unfolding run other ..
  have exc: "GetAbbyyText cv api n = Inl Cv_exception"
    if "ExtractTableJoints cv (HOcrEscape cv nm) = None"
    unfolding run that option.case ..
  have full: "\<exists>body. GetAbbyyText cv api n =
      Inr (page_open n @ HOcrEscape cv nm @ page_rect api n @ body @ ''  </div>\<newline>'')"
    if "ExtractTableJoints cv (HOcrEscape cv nm) \<noteq> None"
  proof -
    from that obtain tj where tj: "ExtractTableJoints cv (HOcrEscape cv nm) = Some tj"
      by (cases "ExtractTableJoints cv (HOcrEscape cv nm)") simp_all
    define pg where "pg = \<lparr>page_id = n + 1, font_info = abbyy_font_info api,
        tables_joints = tj, escape = HOcrEscape cv\<rparr>"
    define start where "start = page_open n @ HOcrEscape cv nm @ page_rect api n"
    have "prefix (abbyy_str (init_cursor start))
        (abbyy_str (word_loop pg (words api) (init_cursor start)))"
      by (rule word_loop_prefix)
    moreover have "abbyy_str (init_cursor start) = start" by (simp add: init_cursor_def)
    ultimately obtain body where
      body: "abbyy_str (word_loop pg (words api) (init_cursor start)) = start @ body"
      by (auto simp: prefix_def)
    have "GetAbbyyText cv api n =
        Inr (abbyy_str (word_loop pg (words api) (init_cursor start)) @ ''  </div>\<newline>'')"
      unfolding run tj option.case pg_def start_def ..
    then have "GetAbbyyText cv api n = Inr ((start @ body) @ ''  </div>\<newline>'')"
      by (simp only: body)
    then have "GetAbbyyText cv api n =
        Inr (page_open n @ HOcrEscape cv nm @ page_rect api n @ body @ ''  </div>\<newline>'')"
      by (simp add: start_def)
    then show ?thesis by (rule exI [where x = body])
  qed
  have ne: "GetAbbyyText cv api n \<noteq> Inr (page_open n @ ''unknown'')"
  proof (cases "ExtractTableJoints cv (HOcrEscape cv nm)")
    case None
    then have "GetAbbyyText cv api n = Inl Cv_exception" by (rule exc)
    then show ?thesis by simp
  next
    case (Some tj)
    then have "ExtractTableJoints cv (HOcrEscape cv nm) \<noteq> None" by simp
    then have "\<exists>body. GetAbbyyText cv api n =
      Inr (page_open n @ HOcrEscape cv nm @ page_rect api n @ body @ ''  </div>\<newline>'')"
      by (rule full)
    then obtain body where b: "GetAbbyyText cv api n =
      Inr (page_open n @ HOcrEscape cv nm @ page_rect api n @ body @ ''  </div>\<newline>'')" ..
    show ?thesis
      unfolding b
      using closing_differs [of "page_open n" "HOcrEscape cv nm" "page_rect api n" body
          "page_open n"]
      by simp
  qed
  have i1: "ExtractTableJoints cv (HOcrEscape cv nm) = None \<longrightarrow>
      GetAbbyyText cv api n = Inl Cv_exception"
    by (rule impI) (rule exc)
  have i2: "ExtractTableJoints cv (HOcrEscape cv nm) \<noteq> None \<longrightarrow>
      (\<exists>body. GetAbbyyText cv api n =
         Inr (page_open n @ HOcrEscape cv nm @ page_rect api n @ body @ ''  </div>\<newline>''))"
    by (rule impI) (rule full)
  show ?thesis
    by (rule conjI [OF same conjI [OF ne conjI [OF i1 i2]]])
qed

theorem missing_input_name_witness:
  "tesseract_present page_no_name \<and> page_res_present page_no_name \<and>
   input_file page_no_name = None \<and>
   SetInputName cv_one_table None None = Some [] \<and>
   SetInputName cv_unreadable None None = Some [] \<and>
   ExtractTableJoints cv_unreadable (HOcrEscape cv_unreadable []) = None \<and>
   GetAbbyyText cv_unreadable page_no_name 0 = Inl Cv_exception \<and>
   GetAbbyyText cv_one_table page_no_name 0 \<noteq> Inr (page_open 0 @ ''unknown'') \<and>
   GetAbbyyText cv_one_table page_no_name 0 =
     GetAbbyyText cv_one_table (page_no_name\<lparr>input_file := Some []\<rparr>) 0"
proof -
  have a: "tesseract_present page_no_name" by (simp add: page_no_name_def api_of_def)
  have b: "page_res_present page_no_name" by (simp add: page_no_name_def api_of_def)
  have c: "input_file page_no_name = None" by (simp add: page_no_name_def)
  have d: "SetInputName cv_one_table None None = Some []" by (simp add: cv_one_table_def)
  have e: "SetInputName cv_unreadable None None = Some []"
    by (simp add: cv_unreadable_def cv_one_table_def)
  have x: "ExtractTableJoints cv_unreadable (HOcrEscape cv_unreadable []) = None"
    by (simp add: ExtractTableJoints_def cv_unreadable_def cv_one_table_def)
  note one = missing_input_name [OF a disjI1 [OF b] c d, of 0]
  note unr = missing_input_name [OF a disjI1 [OF b] c e, of 0]
  from unr x have 1: "GetAbbyyText cv_unreadable page_no_name 0 = Inl Cv_exception" by blast
  from one have 2: "GetAbbyyText cv_one_table page_no_name 0 \<noteq> Inr (page_open 0 @ ''unknown'')"
    by blast
  from one have 3: "GetAbbyyText cv_one_table page_no_name 0 =
     GetAbbyyText cv_one_table (page_no_name\<lparr>input_file := Some []\<rparr>) 0" by blast
  show ?thesis by (intro conjI a b c d e x 1 2 3)
qed

text \<open>
  C10 as stated fails: \<^verbatim>\<open>input_file_\<close> is null on entry, \<^verbatim>\<open>SetInputName(nullptr)\<close> stores the
  empty name, and the branch for a present name runs. With a library that finds an image
  under the empty name, the file name written is empty and the page element is completed
  and closed; with a library that cannot read it and raises, no text is returned at all.
  In neither case is the text the opening of the page element with the name \<open>unknown\<close>.
\<close>

theorem missing_input_name_counterexample:
  "tesseract_present page_no_name \<and>
   page_res_present page_no_name \<and>
   input_file page_no_name = None \<and>
   SetInputName cv_one_table None None = Some [] \<and>
   GetAbbyyText cv_one_table page_no_name 0 \<noteq>
     Inr (''  <div class='page' id='page_1' filename='unknown'') \<and>
   markup_tags (GetAbbyyText cv_one_table page_no_name 0) =
     [Open ''div'', Close ''div''] \<and>
   sublist (''filename='' @ sq @ sq @ '' left='')
     (text_of (GetAbbyyText cv_one_table page_no_name 0)) \<and>
   SetInputName cv_unreadable None None = Some [] \<and>
   GetAbbyyText cv_unreadable page_no_name 0 = Inl Cv_exception"
  by code_simp

end
